theory Spec2Isabelle
  imports Main "HOL-Library.Word"
begin

section \<open>The HTTP server factory (http-server, in the sources as part_003)\<close>

text \<open>
  The factory reads the validated options once, keeps \<open>port\<close>, \<open>max\<close> and
  \<open>hostname\<close> in its closure and returns the bind procedure \<open>httpServer\<close>.
  The closure variables are the record \<open>closure\<close>; the bind procedure takes the closure
  and returns it updated, together with the list of the actions it performed, in order.
  Port numbers are the non-negative integers the option validation lets through.
  The options are taken as \<open>validate\<close> has left them. The package has a second
  variant of \<open>httpServer\<close> that takes an options object for \<open>http.createServer\<close>
  before the callback; its listen calls and its two listeners are the same.
\<close>

subsection \<open>Data\<close>

text \<open>An error object: a \<open>TypeError\<close> of this package, or an error of the platform with
  its \<open>code\<close> property (absent on an error without one).\<close>

datatype js_error = TypeError string | Error "string option"

text \<open>The validated options object \<open>opts\<close>; an absent property is \<open>None\<close>.\<close>

record options =
  opt_port :: "nat option"
  opt_maxport :: "nat option"
  opt_hostname :: "string option"
  opt_address :: "string option"

text \<open>The variables \<open>port\<close>, \<open>max\<close> and \<open>hostname\<close> of the factory's closure.\<close>

record closure =
  port :: nat
  max_port :: nat
  hostname :: string

text \<open>The server handle given to the completion callback, with the port of the listen
  call that succeeded on it.\<close>

datatype server = Server nat

text \<open>What the platform answers to \<open>server.listen( port, hostname )\<close>: the
  \<open>listening\<close> event, or an \<open>error\<close> event carrying an error object. The platform of
  one invocation is a function of the port: an invocation never listens twice on a port.\<close>

datatype listen_outcome = Listening | Errored js_error

type_synonym platform = "nat \<Rightarrow> listen_outcome"

text \<open>The observable actions of a bind procedure.\<close>

datatype action =
    Listen nat string
  | Callback "js_error option" server
  | Throw js_error

text \<open>The argument given as completion callback.\<close>

datatype jsarg = Function | NotFunction

subsection \<open>The factory\<close>

text \<open>The object \<open>DEFAULTS\<close> read from \<open>defaults.json\<close>, a parameter of the model.\<close>

record defaults =
  default_port :: nat
  default_address :: string

text \<open>A string option is truthy when it is present and not the empty string.\<close>

fun truthy_str :: "string option \<Rightarrow> bool" where
  "truthy_str None = False"
| "truthy_str (Some s) = (s \<noteq> [])"

definition factory :: "defaults \<Rightarrow> options \<Rightarrow> closure" where
  "factory DEFAULTS opts =
     (let p = (case opt_port opts of None \<Rightarrow> default_port DEFAULTS | Some v \<Rightarrow> v);
          m = (case opt_maxport opts of None \<Rightarrow> p | Some v \<Rightarrow> v);
          h = (if truthy_str (opt_hostname opts) then the (opt_hostname opts)
               else if truthy_str (opt_address opts) then the (opt_address opts)
               else default_address DEFAULTS)
      in \<lparr> port = p, max_port = m, hostname = h \<rparr>)"

subsection \<open>The bind procedure\<close>

text \<open>The decision of \<open>errorListener\<close>: it has called \<open>server.listen\<close> again and
  returned, or it throws the error it was given.\<close>

datatype decision = Relisten | Rethrow js_error

definition errorListener :: "closure \<Rightarrow> js_error \<Rightarrow> closure \<times> decision" where
  "errorListener st err =
     (if err = Error (Some ''EADDRINUSE'') then
        (let st' = st\<lparr> port := port st + 1 \<rparr>
         in if port st' \<le> max_port st' then (st', Relisten) else (st', Rethrow err))
      else (st, Rethrow err))"

definition onListen :: "closure \<Rightarrow> action list" where
  "onListen st = [Callback None (Server (port st))]"

text \<open>\<open>server.listen( port, hostname )\<close> and the handling of the event that answers it.\<close>

function server_listen :: "platform \<Rightarrow> closure \<Rightarrow> closure \<times> action list" where
  "server_listen env st =
     (case env (port st) of
        Listening \<Rightarrow> (st, Listen (port st) (hostname st) # onListen st)
      | Errored err \<Rightarrow>
          (case errorListener st err of
             (st', Relisten) \<Rightarrow>
               (let (st'', acts) = server_listen env st'
                in (st'', Listen (port st) (hostname st) # acts))
           | (st', Rethrow e) \<Rightarrow>
               (st', [Listen (port st) (hostname st), Throw e])))"
  by pat_completeness auto
termination
  by (relation "measure (\<lambda>(env, st). Suc (max_port st) - port st)")
     (auto simp: errorListener_def Let_def split: if_splits)

declare server_listen.simps [simp del]

definition httpServer :: "platform \<Rightarrow> closure \<Rightarrow> jsarg \<Rightarrow> closure \<times> action list" where
  "httpServer env st done =
     (if done \<noteq> Function then
        (st, [Throw (TypeError ''invalid argument. Callback argument must be a function.'')])
      else server_listen env st)"

subsection \<open>Reading a list of actions\<close>

fun attempts :: "action list \<Rightarrow> nat list" where
  "attempts [] = []"
| "attempts (Listen p h # as) = p # attempts as"
| "attempts (a # as) = attempts as"

fun callbacks :: "action list \<Rightarrow> (js_error option \<times> server) list" where
  "callbacks [] = []"
| "callbacks (Callback e s # as) = (e, s) # callbacks as"
| "callbacks (a # as) = callbacks as"

fun thrown :: "action list \<Rightarrow> js_error list" where
  "thrown [] = []"
| "thrown (Throw e # as) = e # thrown as"
| "thrown (a # as) = thrown as"

definition EADDRINUSE :: js_error where
  "EADDRINUSE = Error (Some ''EADDRINUSE'')"


section \<open>The disposable HTTP server (disposable-http-server, in the sources as part_000)\<close>

text \<open>
  The server is modelled from the moment it is bound: the state holds the variables of
  the closure of \<open>httpServer\<close> that the request listener and \<open>onFinish\<close> use, and the
  event loop is the list of the events it delivers.
\<close>

subsection \<open>Strings and buffers of the platform\<close>

text \<open>
  A JavaScript string is the list of its Unicode code points (a surrogate that has no
  partner is a code point of its own); a buffer is a list of bytes. The two conversions
  are those of Node.js, which the package calls and does not define:
  \<open>string2buffer( str )\<close> and \<open>Buffer.byteLength( str )\<close> encode a string as UTF-8,
  and \<open>buffer.toString()\<close> decodes UTF-8, giving U+FFFD for every ill-formed sequence, as
  the decoder of the WHATWG Encoding Standard does.
\<close>

type_synonym byte = "8 word"

type_synonym ustring = "nat list"

datatype jsval = Undefined | JString ustring | JBuffer "byte list"

text \<open>The UTF-8 encoding of one code point. A lone surrogate is encoded as U+FFFD.\<close>

definition utf8_bytes :: "nat \<Rightarrow> byte list" where
  "utf8_bytes cp =
     (if cp < 0x80 then [of_nat cp]
      else if cp < 0x800 then [of_nat (0xC0 + cp div 64), of_nat (0x80 + cp mod 64)]
      else if 0xD800 \<le> cp \<and> cp < 0xE000 then [0xEF, 0xBF, 0xBD]
      else if cp < 0x10000 then
        [of_nat (0xE0 + cp div 4096), of_nat (0x80 + cp div 64 mod 64), of_nat (0x80 + cp mod 64)]
      else
        [of_nat (0xF0 + cp div 262144), of_nat (0x80 + cp div 4096 mod 64),
         of_nat (0x80 + cp div 64 mod 64), of_nat (0x80 + cp mod 64)])"

definition utf8_encode :: "ustring \<Rightarrow> byte list" where
  "utf8_encode s = concat (map utf8_bytes s)"

text \<open>
  The decoder keeps the code point under construction, the numbers of continuation bytes
  seen and needed, and the bounds of the next continuation byte. \<open>x mod 32\<close> is the
  standard's \<open>byte AND 0x1F\<close> and \<open>cp * 64 + x mod 64\<close> its
  \<open>(cp << 6) OR (byte AND 0x3F)\<close>.
\<close>

function utf8_decode_from ::
    "nat \<Rightarrow> nat \<Rightarrow> nat \<Rightarrow> nat \<Rightarrow> nat \<Rightarrow> byte list \<Rightarrow> ustring" where
  "utf8_decode_from cp seen needed lo hi [] = (if needed \<noteq> 0 then [0xFFFD] else [])"
| "utf8_decode_from cp seen needed lo hi (b # bs) =
     (let x = unat b in
      if needed = 0 then
        (if x \<le> 0x7F then x # utf8_decode_from 0 0 0 0x80 0xBF bs
         else if 0xC2 \<le> x \<and> x \<le> 0xDF then utf8_decode_from (x mod 32) 0 1 0x80 0xBF bs
         else if 0xE0 \<le> x \<and> x \<le> 0xEF then
           utf8_decode_from (x mod 16) 0 2
             (if x = 0xE0 then 0xA0 else 0x80) (if x = 0xED then 0x9F else 0xBF) bs
         else if 0xF0 \<le> x \<and> x \<le> 0xF4 then
           utf8_decode_from (x mod 8) 0 3
             (if x = 0xF0 then 0x90 else 0x80) (if x = 0xF4 then 0x8F else 0xBF) bs
         else 0xFFFD # utf8_decode_from 0 0 0 0x80 0xBF bs)
      else if x < lo \<or> hi < x then 0xFFFD # utf8_decode_from 0 0 0 0x80 0xBF (b # bs)
      else if seen + 1 \<noteq> needed then
        utf8_decode_from (cp * 64 + x mod 64) (seen + 1) needed 0x80 0xBF bs
      else (cp * 64 + x mod 64) # utf8_decode_from 0 0 0 0x80 0xBF bs)"
  by pat_completeness auto
termination
  by (relation "measure (\<lambda>(cp, seen, needed, lo, hi, bs).
        2 * length bs + (if needed = 0 then 0 else 1))") auto

definition utf8_decode :: "byte list \<Rightarrow> ustring" where
  "utf8_decode bs = utf8_decode_from 0 0 0 0x80 0xBF bs"

text \<open>What the decoder reads back for a code point of a string that was encoded: the
  code point itself, or U+FFFD for a lone surrogate.\<close>

definition scalar :: "nat \<Rightarrow> nat" where
  "scalar cp = (if 0xD800 \<le> cp \<and> cp < 0xE000 then 0xFFFD else cp)"

text \<open>\<open>str.toString()\<close>: a property read on \<open>undefined\<close> throws.\<close>

fun toString :: "jsval \<Rightarrow> js_error + ustring" where
  "toString Undefined = Inl (TypeError ''Cannot read properties of undefined'')"
| "toString (JString s) = Inr s"
| "toString (JBuffer b) = Inr (utf8_decode b)"

fun truthy :: "jsval \<Rightarrow> bool" where
  "truthy Undefined = False"
| "truthy (JString s) = (s \<noteq> [])"
| "truthy (JBuffer b) = True"

fun isString :: "jsval \<Rightarrow> bool" where
  "isString (JString s) = True"
| "isString v = False"

fun string2buffer :: "jsval \<Rightarrow> jsval" where
  "string2buffer (JString s) = JBuffer (utf8_encode s)"
| "string2buffer v = v"

text \<open>
  The Node.js release that runs the package: the major number of \<open>NODE_VERSION\<close>, and
  what \<open>Buffer.byteLength\<close> of a release before 6 returns for a value that is not a
  string (those releases never throw there; what they return has changed between them).
\<close>

record node =
  major :: nat
  legacy_byteLength :: "jsval \<Rightarrow> nat"

definition SUPPORTS_BUFFER :: "node \<Rightarrow> bool" where
  "SUPPORTS_BUFFER nd = (major nd < 6)"

fun Buffer_byteLength :: "node \<Rightarrow> jsval \<Rightarrow> nat" where
  "Buffer_byteLength nd (JString s) = length (utf8_encode s)"
| "Buffer_byteLength nd v = legacy_byteLength nd v"

definition byteLength :: "node \<Rightarrow> jsval \<Rightarrow> js_error + nat" where
  "byteLength nd str =
     (if SUPPORTS_BUFFER nd then Inr (Buffer_byteLength nd str)
      else (case toString str of
              Inl e \<Rightarrow> Inl e
            | Inr s \<Rightarrow> Inr (Buffer_byteLength nd (JString s))))"

subsection \<open>Responses\<close>

datatype header_value = HString string | HNumber nat

record response =
  statusCode :: nat
  headers :: "string \<rightharpoonup> header_value"
  body :: "byte list"
  ended :: bool
  finishListener :: bool
  finished :: bool

text \<open>The response object the platform hands to the request listener.\<close>

definition new_response :: response where
  "new_response = \<lparr> statusCode = 200, headers = Map.empty, body = [], ended = False,
     finishListener = False, finished = False \<rparr>"

definition setHeader :: "string \<Rightarrow> header_value \<Rightarrow> response \<Rightarrow> response" where
  "setHeader name v r = r\<lparr> headers := (headers r)(name \<mapsto> v) \<rparr>"

text \<open>\<open>response.end( data )\<close>; without data the body is empty.\<close>

fun chunk :: "jsval \<Rightarrow> byte list" where
  "chunk Undefined = []"
| "chunk (JString s) = utf8_encode s"
| "chunk (JBuffer b) = b"

definition response_end :: "jsval \<Rightarrow> response \<Rightarrow> response" where
  "response_end data r = r\<lparr> body := chunk data, ended := True \<rparr>"

definition notFound :: "response \<Rightarrow> response" where
  "notFound r = response_end Undefined (r\<lparr> statusCode := 404 \<rparr>)"

definition unavailable :: "response \<Rightarrow> response" where
  "unavailable r = response_end Undefined (r\<lparr> statusCode := 503 \<rparr>)"

subsection \<open>Options and server state\<close>

record temp_options =
  html :: jsval
  javascript :: jsval

text \<open>
  The options as \<open>httpServer\<close> holds them once it has converted strings to buffers and
  loaded the boilerplate page (the contents of \<open>static/index.html\<close>, a parameter here)
  in the place of missing HTML.
\<close>

definition tempHttpServer_opts :: "byte list \<Rightarrow> temp_options \<Rightarrow> temp_options" where
  "tempHttpServer_opts boilerplate options =
     (let h = (if truthy (html options) \<and> isString (html options)
               then string2buffer (html options) else html options);
          j = (if truthy (javascript options) \<and> isString (javascript options)
               then string2buffer (javascript options) else javascript options)
      in \<lparr> html = (if \<not> truthy h then JBuffer boilerplate else h), javascript = j \<rparr>)"

text \<open>The functions given to \<open>onTick\<close>, and the callback of a timer.\<close>

datatype fcn = SendHTML | SendJavaScript

datatype timer_callback = DestroyConnections

text \<open>
  The variables of the closure of one server, and what the platform holds for it: the
  response objects by request number, the queue of \<open>nextTick\<close> callbacks, the number of
  calls of \<open>server.close()\<close>, the timers set, and the errors thrown out of a callback.
\<close>

record tstate =
  isClosing :: bool
  responses :: "nat \<rightharpoonup> response"
  ticks :: "(fcn \<times> nat) list"
  closeCalls :: nat
  timers :: "(timer_callback \<times> nat) list"
  uncaught :: "js_error list"

definition init :: tstate where
  "init = \<lparr> isClosing = False, responses = Map.empty, ticks = [], closeCalls = 0,
     timers = [], uncaught = [] \<rparr>"

definition on_response :: "nat \<Rightarrow> (response \<Rightarrow> response) \<Rightarrow> tstate \<Rightarrow> tstate" where
  "on_response rid f st =
     (case responses st rid of
        None \<Rightarrow> st
      | Some r \<Rightarrow> st\<lparr> responses := (responses st)(rid \<mapsto> f r) \<rparr>)"

subsection \<open>The listeners\<close>

definition sendHTML :: "node \<Rightarrow> temp_options \<Rightarrow> response \<Rightarrow> response \<times> js_error option" where
  "sendHTML nd opts r =
     (let r1 = r\<lparr> statusCode := 200 \<rparr>;
          r2 = setHeader ''Content-Type'' (HString ''text/html'') r1
      in case byteLength nd (html opts) of
           Inl e \<Rightarrow> (r2, Some e)
         | Inr n \<Rightarrow> (response_end (html opts) (setHeader ''Content-Length'' (HNumber n) r2), None))"

definition sendJavaScript :: "node \<Rightarrow> temp_options \<Rightarrow> response \<Rightarrow> response \<times> js_error option" where
  "sendJavaScript nd opts r =
     (let r1 = r\<lparr> statusCode := 200 \<rparr>;
          r2 = setHeader ''Content-Type'' (HString ''text/javascript'') r1
      in case byteLength nd (javascript opts) of
           Inl e \<Rightarrow> (r2, Some e)
         | Inr n \<Rightarrow>
             (response_end (javascript opts) (setHeader ''Content-Length'' (HNumber n) r2), None))"

definition onFinish :: "tstate \<Rightarrow> tstate" where
  "onFinish st = st\<lparr> isClosing := True, closeCalls := closeCalls st + 1,
     timers := timers st @ [(DestroyConnections, 5000)] \<rparr>"

definition requestListener :: "temp_options \<Rightarrow> nat \<Rightarrow> string \<Rightarrow> tstate \<Rightarrow> tstate" where
  "requestListener opts rid url st =
     (if isClosing st then on_response rid unavailable st
      else if url = ''/bundle.js'' then
        on_response rid (\<lambda>r. r\<lparr> finishListener := True \<rparr>)
          (st\<lparr> ticks := ticks st @ [(SendJavaScript, rid)] \<rparr>)
      else if url \<noteq> ''/'' \<and> url \<noteq> ''/index.html'' then on_response rid notFound st
      else
        (let st' = st\<lparr> ticks := ticks st @ [(SendHTML, rid)] \<rparr>
         in if \<not> truthy (javascript opts)
            then on_response rid (\<lambda>r. r\<lparr> finishListener := True \<rparr>) st'
            else st'))"

text \<open>The callback \<open>next\<close> that \<open>onTick( fcn )\<close> returns, run on a response.\<close>

definition next_tick :: "node \<Rightarrow> temp_options \<Rightarrow> fcn \<Rightarrow> nat \<Rightarrow> tstate \<Rightarrow> tstate" where
  "next_tick nd opts f rid st =
     (case responses st rid of
        None \<Rightarrow> st
      | Some r \<Rightarrow>
          (let (r', thrown_error) =
                 (case f of SendHTML \<Rightarrow> sendHTML nd opts r
                          | SendJavaScript \<Rightarrow> sendJavaScript nd opts r)
           in st\<lparr> responses := (responses st)(rid \<mapsto> r'),
                  uncaught := uncaught st @ (case thrown_error of None \<Rightarrow> [] | Some e \<Rightarrow> [e]) \<rparr>))"

subsection \<open>Events\<close>

text \<open>
  What the event loop delivers to one server: a request with a new response object, the
  run of the oldest \<open>nextTick\<close> callback, and the \<open>finish\<close> event of a response,
  which the platform emits once, after the response has been ended. An event that the
  platform cannot deliver in a state leaves the state as it is.
\<close>

datatype event = Request nat string | Tick | Finish nat

fun step :: "node \<Rightarrow> temp_options \<Rightarrow> tstate \<Rightarrow> event \<Rightarrow> tstate" where
  "step nd opts st (Request rid url) =
     (if rid \<in> dom (responses st) then st
      else requestListener opts rid url
             (st\<lparr> responses := (responses st)(rid \<mapsto> new_response) \<rparr>))"
| "step nd opts st Tick =
     (case ticks st of
        [] \<Rightarrow> st
      | (f, rid) # q \<Rightarrow> next_tick nd opts f rid (st\<lparr> ticks := q \<rparr>))"
| "step nd opts st (Finish rid) =
     (case responses st rid of
        None \<Rightarrow> st
      | Some r \<Rightarrow>
          (if ended r \<and> \<not> finished r then
             (let st' = st\<lparr> responses :=
                          (responses st)(rid \<mapsto> r\<lparr> finished := True, finishListener := False \<rparr>) \<rparr>
              in if finishListener r then onFinish st' else st')
           else st))"

definition run :: "node \<Rightarrow> temp_options \<Rightarrow> tstate \<Rightarrow> event list \<Rightarrow> tstate" where
  "run nd opts st evs = foldl (step nd opts) st evs"

section \<open>Properties of the bind procedure\<close>

subsection \<open>One listen call and what follows it\<close>

lemma server_listen_Listening:
  "env (port st) = Listening \<Longrightarrow>
   server_listen env st = (st, [Listen (port st) (hostname st), Callback None (Server (port st))])"
  by (simp add: server_listen.simps onListen_def)

lemma server_listen_retry:
  "env (port st) = Errored EADDRINUSE \<Longrightarrow> port st < max_port st \<Longrightarrow>
   server_listen env st =
     (fst (server_listen env (st\<lparr>port := port st + 1\<rparr>)),
      Listen (port st) (hostname st) # snd (server_listen env (st\<lparr>port := port st + 1\<rparr>)))"
  by (subst server_listen.simps)
     (simp add: errorListener_def EADDRINUSE_def Let_def split: prod.splits)

lemma server_listen_throw:
  "env (port st) = Errored err \<Longrightarrow> \<not> (err = EADDRINUSE \<and> port st < max_port st) \<Longrightarrow>
   server_listen env st =
     ((if err = EADDRINUSE then st\<lparr>port := port st + 1\<rparr> else st),
      [Listen (port st) (hostname st), Throw err])"
  by (subst server_listen.simps)
     (auto simp add: errorListener_def EADDRINUSE_def Let_def split: prod.splits)

lemma server_listen_cases:
  obtains (bound) "env (port st) = Listening"
  | (retry) "env (port st) = Errored EADDRINUSE" "port st < max_port st"
  | (fail) err where "env (port st) = Errored err" "\<not> (err = EADDRINUSE \<and> port st < max_port st)"
  by (cases "env (port st)") auto

lemma server_listen_induct [consumes 0, case_names bound retry fail]:
  assumes "\<And>st. env (port st) = Listening \<Longrightarrow> Q st"
    and "\<And>st. env (port st) = Errored EADDRINUSE \<Longrightarrow> port st < max_port st \<Longrightarrow>
            Q (st\<lparr>port := port st + 1\<rparr>) \<Longrightarrow> Q st"
    and "\<And>st err. env (port st) = Errored err \<Longrightarrow>
            \<not> (err = EADDRINUSE \<and> port st < max_port st) \<Longrightarrow> Q st"
  shows "Q st"
proof (induction "Suc (max_port st) - port st" arbitrary: st rule: less_induct)
  case less
  show ?case
  proof (cases rule: server_listen_cases [of env st])
    case bound
    then show ?thesis by (rule assms(1))
  next
    case retry
    have "Q (st\<lparr>port := port st + 1\<rparr>)"
      using retry(2) by (intro less) simp
    with retry show ?thesis by (rule assms(2))
  next
    case (fail err)
    then show ?thesis by (rule assms(3))
  qed
qed

lemma server_listen_first:
  "\<exists>rest. snd (server_listen env st) = Listen (port st) (hostname st) # rest"
  by (cases rule: server_listen_cases [of env st])
     (simp_all add: server_listen_Listening server_listen_retry server_listen_throw)

lemma callbacks_error_slot:
  "(e, s) \<in> set (callbacks (snd (server_listen env st))) \<Longrightarrow> e = None"
  by (induction st rule: server_listen_induct [of env])
     (auto simp: server_listen_Listening server_listen_retry server_listen_throw)

lemma server_listen_outcome:
  "(\<exists>p. env p = Listening \<and> last (snd (server_listen env st)) = Callback None (Server p) \<and>
        callbacks (snd (server_listen env st)) = [(None, Server p)] \<and>
        thrown (snd (server_listen env st)) = [] \<and>
        last (attempts (snd (server_listen env st))) = p) \<or>
   (\<exists>e. last (snd (server_listen env st)) = Throw e \<and>
        callbacks (snd (server_listen env st)) = [] \<and>
        thrown (snd (server_listen env st)) = [e] \<and>
        (\<forall>p \<in> set (attempts (snd (server_listen env st))). env p \<noteq> Listening))"
proof (induction st rule: server_listen_induct [of env])
  case (bound st)
  then show ?case by (auto simp: server_listen_Listening)
next
  case (retry st)
  obtain rest where r: "snd (server_listen env (st\<lparr>port := port st + 1\<rparr>)) =
      Listen (port (st\<lparr>port := port st + 1\<rparr>)) (hostname (st\<lparr>port := port st + 1\<rparr>)) # rest"
    using server_listen_first by blast
  from retry(3) show ?case
    unfolding server_listen_retry [of env st, OF retry(1,2)] snd_conv
    using r retry(1) by (auto simp: )
next
  case (fail st err)
  then show ?case by (auto simp: server_listen_throw)
qed

lemma server_listen_port:
  "port (fst (server_listen env st)) =
     port st + length (filter (\<lambda>p. env p = Errored EADDRINUSE) (attempts (snd (server_listen env st)))) \<and>
   max_port (fst (server_listen env st)) = max_port st \<and>
   hostname (fst (server_listen env st)) = hostname st"
  by (induction st rule: server_listen_induct [of env])
     (auto simp: server_listen_Listening server_listen_retry server_listen_throw)

lemma hunt:
  "port st \<le> max_port st \<Longrightarrow>
   (\<forall>p. port st \<le> p \<and> p < max_port st \<longrightarrow> env p = Errored EADDRINUSE) \<Longrightarrow>
   env (max_port st) = Listening \<Longrightarrow>
   server_listen env st =
     (st\<lparr>port := max_port st\<rparr>,
      map (\<lambda>p. Listen p (hostname st)) [port st..<Suc (max_port st)] @
      [Callback None (Server (max_port st))])"
proof (induction "max_port st - port st" arbitrary: st)
  case 0
  then have "port st = max_port st" by simp
  with 0 show ?case by (simp add: server_listen_Listening)
next
  case (Suc n)
  let ?st = "st\<lparr>port := port st + 1\<rparr>"
  from Suc have lt: "port st < max_port st" by simp
  with Suc have occ: "env (port st) = Errored EADDRINUSE" by simp
  have "server_listen env ?st =
     (?st\<lparr>port := max_port ?st\<rparr>,
      map (\<lambda>p. Listen p (hostname ?st)) [port ?st..<Suc (max_port ?st)] @
      [Callback None (Server (max_port ?st))])"
    using Suc.prems Suc.hyps(2) lt by (intro Suc.hyps(1)) auto
  then show ?case using lt server_listen_retry [of env st, OF occ lt]
    by (simp add: upt_conv_Cons del: upt_Suc)
qed

lemma attempts_map_Listen: "attempts (map (\<lambda>p. Listen p h) ps @ as) = ps @ attempts as"
  by (induction ps) auto

lemma callbacks_map_Listen: "callbacks (map (\<lambda>p. Listen p h) ps @ as) = callbacks as"
  by (induction ps) auto

lemma thrown_map_Listen: "thrown (map (\<lambda>p. Listen p h) ps @ as) = thrown as"
  by (induction ps) auto

lemma factory_port: "opt_port opts = Some P \<Longrightarrow> port (factory DEFAULTS opts) = P"
  by (simp add: factory_def Let_def)

lemma factory_max_port: "opt_maxport opts = Some M \<Longrightarrow> max_port (factory DEFAULTS opts) = M"
  by (simp add: factory_def Let_def)

text \<open>
  C1. Let the configured port be \<open>P\<close> and the configured maximum port \<open>M\<close>, and take the
  first invocation of the bind procedure of a new factory. If \<open>P \<le> M\<close>, every listen
  call on a port from \<open>P\<close> to \<open>M - 1\<close> is answered by the address-in-use error and the
  call on \<open>M\<close> by the listening event, then the listen calls are made on
  \<open>P, P + 1, ..., M\<close> in this order, there are \<open>M - P + 1\<close> of them, the callback
  receives the server listening on \<open>M\<close>, and nothing is thrown. If \<open>M < P\<close>, exactly one
  listen call is made, on \<open>P\<close>, and when it is answered by the address-in-use error
  that error is thrown at once.
\<close>

theorem port_hunting:
  assumes "opt_port opts = Some P" and "opt_maxport opts = Some M"
  shows "(P \<le> M \<and> (\<forall>p. P \<le> p \<and> p < M \<longrightarrow> env p = Errored EADDRINUSE) \<and> env M = Listening \<longrightarrow>
            attempts (snd (httpServer env (factory DEFAULTS opts) Function)) = [P..<Suc M] \<and>
            length (attempts (snd (httpServer env (factory DEFAULTS opts) Function))) = M - P + 1 \<and>
            callbacks (snd (httpServer env (factory DEFAULTS opts) Function)) = [(None, Server M)] \<and>
            thrown (snd (httpServer env (factory DEFAULTS opts) Function)) = []) \<and>
         (M < P \<longrightarrow>
            attempts (snd (httpServer env (factory DEFAULTS opts) Function)) = [P] \<and>
            (env P = Errored EADDRINUSE \<longrightarrow>
               snd (httpServer env (factory DEFAULTS opts) Function) =
                 [Listen P (hostname (factory DEFAULTS opts)), Throw EADDRINUSE]))"
proof (intro conjI impI)
  let ?st = "factory DEFAULTS opts"
  have p: "port ?st = P" and m: "max_port ?st = M"
    using assms by (simp_all add: factory_port factory_max_port)
  {
    assume h: "P \<le> M \<and> (\<forall>p. P \<le> p \<and> p < M \<longrightarrow> env p = Errored EADDRINUSE) \<and> env M = Listening"
    have tr: "snd (httpServer env ?st Function) =
        map (\<lambda>p. Listen p (hostname ?st)) [P..<Suc M] @ [Callback None (Server M)]"
      using h hunt [of ?st env] by (simp add: httpServer_def p m)
    show "attempts (snd (httpServer env ?st Function)) = [P..<Suc M]"
      unfolding tr attempts_map_Listen by simp
    then show "length (attempts (snd (httpServer env ?st Function))) = M - P + 1"
      using h by (simp add: Suc_diff_le)
    show "callbacks (snd (httpServer env ?st Function)) = [(None, Server M)]"
      unfolding tr callbacks_map_Listen by simp
    show "thrown (snd (httpServer env ?st Function)) = []"
      unfolding tr thrown_map_Listen by simp
  }
  {
    assume lt: "M < P"
    show "attempts (snd (httpServer env ?st Function)) = [P]"
      using lt p m
      by (cases rule: server_listen_cases [of env ?st])
         (simp_all add: httpServer_def server_listen_Listening server_listen_throw)
    assume "env P = Errored EADDRINUSE"
    then show "snd (httpServer env ?st Function) = [Listen P (hostname ?st), Throw EADDRINUSE]"
      using lt p m server_listen_throw [of env ?st EADDRINUSE] by (simp add: httpServer_def)
  }
qed

theorem port_hunting_witness:
  "attempts (snd (httpServer (\<lambda>p. if p < 8082 then Errored EADDRINUSE else Listening)
      (factory \<lparr>default_port = 0, default_address = ''127.0.0.1''\<rparr>
        \<lparr>opt_port = Some 8080, opt_maxport = Some 8082, opt_hostname = None, opt_address = None\<rparr>)
      Function)) = [8080, 8081, 8082] \<and>
   callbacks (snd (httpServer (\<lambda>p. if p < 8082 then Errored EADDRINUSE else Listening)
      (factory \<lparr>default_port = 0, default_address = ''127.0.0.1''\<rparr>
        \<lparr>opt_port = Some 8080, opt_maxport = Some 8082, opt_hostname = None, opt_address = None\<rparr>)
      Function)) = [(None, Server 8082)] \<and>
   snd (httpServer (\<lambda>p. Errored EADDRINUSE)
      (factory \<lparr>default_port = 0, default_address = ''127.0.0.1''\<rparr>
        \<lparr>opt_port = Some 8080, opt_maxport = Some 80, opt_hostname = None, opt_address = None\<rparr>)
      Function) = [Listen 8080 ''127.0.0.1'', Throw EADDRINUSE]"
  using port_hunting [of "\<lparr>opt_port = Some 8080, opt_maxport = Some 8082, opt_hostname = None, opt_address = None\<rparr>"
      8080 8082 "\<lambda>p. if p < 8082 then Errored EADDRINUSE else Listening" "\<lparr>default_port = 0, default_address = ''127.0.0.1''\<rparr>"]
    port_hunting [of "\<lparr>opt_port = Some 8080, opt_maxport = Some 80, opt_hostname = None, opt_address = None\<rparr>"
      8080 80 "\<lambda>p. Errored EADDRINUSE" "\<lparr>default_port = 0, default_address = ''127.0.0.1''\<rparr>"]
  by (simp add: factory_def upt_conv_Cons del: upt_Suc)

text \<open>
  C2. At an attempt on port \<open>p\<close> that ends in an error event, the bind procedure goes on
  to port \<open>p + 1\<close> exactly when the error is the address-in-use error and \<open>p\<close> is below
  the maximum port. On every other error the error is thrown right after that attempt:
  no further listen call is made, no callback is invoked. No callback of any run ever
  carries an error in its first argument.
\<close>

theorem retry_iff_address_in_use:
  assumes "env (port st) = Errored err"
  shows "((\<exists>rest. attempts (snd (server_listen env st)) = port st # (port st + 1) # rest) \<longleftrightarrow>
            err = EADDRINUSE \<and> port st < max_port st) \<and>
         (err = EADDRINUSE \<and> port st < max_port st \<longrightarrow>
            snd (server_listen env st) =
              Listen (port st) (hostname st) # snd (server_listen env (st\<lparr>port := port st + 1\<rparr>))) \<and>
         (\<not> (err = EADDRINUSE \<and> port st < max_port st) \<longrightarrow>
            snd (server_listen env st) = [Listen (port st) (hostname st), Throw err]) \<and>
         (\<forall>e s. (e, s) \<in> set (callbacks (snd (server_listen env st))) \<longrightarrow> e = None)"
proof (cases "err = EADDRINUSE \<and> port st < max_port st")
  case True
  then have occ: "env (port st) = Errored EADDRINUSE" and lt: "port st < max_port st"
    using assms by simp_all
  obtain rest where rest: "snd (server_listen env (st\<lparr>port := port st + 1\<rparr>)) =
      Listen (port st + 1) (hostname st) # rest"
    using server_listen_first [of env "st\<lparr>port := port st + 1\<rparr>"] by auto
  show ?thesis
    using True rest callbacks_error_slot [of _ _ env st]
    by (auto simp: server_listen_retry [of env st, OF occ lt])
next
  case False
  show ?thesis
    using False callbacks_error_slot [of _ _ env st]
    by (auto simp: server_listen_throw [of env st err, OF assms False])
qed

theorem retry_iff_address_in_use_witness:
  "snd (server_listen (\<lambda>p. if p = 3000 then Errored EADDRINUSE else Listening)
         \<lparr>port = 3000, max_port = 3001, hostname = ''localhost''\<rparr>) =
     [Listen 3000 ''localhost'', Listen 3001 ''localhost'', Callback None (Server 3001)] \<and>
   snd (server_listen (\<lambda>p. Errored (Error (Some ''EACCES'')))
         \<lparr>port = 80, max_port = 90, hostname = ''localhost''\<rparr>) =
     [Listen 80 ''localhost'', Throw (Error (Some ''EACCES''))] \<and>
   snd (server_listen (\<lambda>p. Errored EADDRINUSE)
         \<lparr>port = 3000, max_port = 3000, hostname = ''localhost''\<rparr>) =
     [Listen 3000 ''localhost'', Throw EADDRINUSE]"
  using retry_iff_address_in_use [of "\<lambda>p. if p = 3000 then Errored EADDRINUSE else Listening"
      "\<lparr>port = 3000, max_port = 3001, hostname = ''localhost''\<rparr>" EADDRINUSE]
    retry_iff_address_in_use [of "\<lambda>p. Errored (Error (Some ''EACCES''))"
      "\<lparr>port = 80, max_port = 90, hostname = ''localhost''\<rparr>" "Error (Some ''EACCES'')"]
    retry_iff_address_in_use [of "\<lambda>p. Errored EADDRINUSE"
      "\<lparr>port = 3000, max_port = 3000, hostname = ''localhost''\<rparr>" EADDRINUSE]
  by (simp add: EADDRINUSE_def server_listen_Listening)

text \<open>
  C5, as stated, fails: an invocation whose listen call is answered by an error other
  than address-in-use invokes the callback zero times.
\<close>

theorem callback_not_always_invoked:
  "\<not> (\<forall>env st done. length (callbacks (snd (httpServer env st done))) = 1)"
proof
  assume "\<forall>env st done. length (callbacks (snd (httpServer env st done))) = 1"
  then have "length (callbacks (snd (httpServer (\<lambda>p. Errored (Error (Some ''EACCES'')))
      \<lparr>port = 80, max_port = 80, hostname = ''127.0.0.1''\<rparr> Function))) = 1"
    by blast
  then show False
    by (simp add: httpServer_def server_listen_throw EADDRINUSE_def)
qed

text \<open>
  C5, amended. Every invocation of the bind procedure invokes the completion callback at
  most once. Either the platform signals the listening event for the last port tried,
  and the callback is invoked exactly once, as the last action, with \<open>null\<close> and the
  server handle, and nothing is thrown; or an error is thrown as the last action (the
  callback argument is not a function, the maximum port is exceeded, or the error is not
  address-in-use), the callback is not invoked, and no port tried was answered by the
  listening event.
\<close>

theorem callback_once_on_success_only:
  "(\<exists>p. env p = Listening \<and> done = Function \<and>
        last (attempts (snd (httpServer env st done))) = p \<and>
        last (snd (httpServer env st done)) = Callback None (Server p) \<and>
        callbacks (snd (httpServer env st done)) = [(None, Server p)] \<and>
        thrown (snd (httpServer env st done)) = []) \<or>
   (\<exists>e. last (snd (httpServer env st done)) = Throw e \<and>
        callbacks (snd (httpServer env st done)) = [] \<and>
        thrown (snd (httpServer env st done)) = [e] \<and>
        (\<forall>p \<in> set (attempts (snd (httpServer env st done))). env p \<noteq> Listening))"
proof (cases "done = Function")
  case True
  then show ?thesis using server_listen_outcome [of env st] by (simp add: httpServer_def)
next
  case False
  then show ?thesis by (simp add: httpServer_def)
qed

theorem callback_once_on_success_only_witness:
  "callbacks (snd (httpServer (\<lambda>p. if p = 3000 then Errored EADDRINUSE else Listening)
      \<lparr>port = 3000, max_port = 3001, hostname = ''localhost''\<rparr> Function)) = [(None, Server 3001)] \<and>
   callbacks (snd (httpServer (\<lambda>p. Errored EADDRINUSE)
      \<lparr>port = 3000, max_port = 3001, hostname = ''localhost''\<rparr> Function)) = [] \<and>
   thrown (snd (httpServer (\<lambda>p. Errored EADDRINUSE)
      \<lparr>port = 3000, max_port = 3001, hostname = ''localhost''\<rparr> Function)) = [EADDRINUSE]"
proof -
  let ?st = "\<lparr>port = 3000, max_port = 3001, hostname = ''localhost''\<rparr>"
  let ?st1 = "\<lparr>port = 3001, max_port = 3001, hostname = ''localhost''\<rparr>"
  let ?free = "\<lambda>p::nat. if p = 3000 then Errored EADDRINUSE else Listening"
  let ?busy = "\<lambda>p::nat. Errored EADDRINUSE"
  have a: "snd (httpServer ?free ?st Function) =
      [Listen 3000 ''localhost'', Listen 3001 ''localhost'', Callback None (Server 3001)]"
    using server_listen_retry [of ?free ?st] server_listen_Listening [of ?free ?st1]
    by (simp add: httpServer_def)
  have b: "snd (httpServer ?busy ?st Function) =
      [Listen 3000 ''localhost'', Listen 3001 ''localhost'', Throw EADDRINUSE]"
    using server_listen_retry [of ?busy ?st] server_listen_throw [of ?busy ?st1 EADDRINUSE]
    by (simp add: httpServer_def)
  show ?thesis
    using callback_once_on_success_only [of ?free Function ?st]
      callback_once_on_success_only [of ?busy Function ?st]
    by (simp add: a b)
qed

text \<open>
  C10. The candidate port is a variable of the factory's closure. Every address-in-use
  error met by an invocation adds one to it, nothing else changes it, and it is never
  set back: after an invocation the port is the port before plus the number of attempts
  answered by address-in-use, while the maximum port and the host name are as before.
  The next invocation of the same bind procedure makes its first listen call on that
  port, not on the configured one.
\<close>

theorem port_is_factory_state:
  "port (fst (httpServer env1 st Function)) =
     port st + length (filter (\<lambda>p. env1 p = Errored EADDRINUSE)
                        (attempts (snd (httpServer env1 st Function)))) \<and>
   max_port (fst (httpServer env1 st Function)) = max_port st \<and>
   hostname (fst (httpServer env1 st Function)) = hostname st \<and>
   (\<exists>rest. snd (httpServer env2 (fst (httpServer env1 st Function)) Function) =
        Listen (port (fst (httpServer env1 st Function))) (hostname st) # rest)"
  using server_listen_port [of env1 st]
    server_listen_first [of env2 "fst (server_listen env1 st)"]
  by (simp add: httpServer_def)

theorem port_is_factory_state_witness:
  "port (fst (httpServer (\<lambda>p. if p < 8082 then Errored EADDRINUSE else Listening)
      (factory \<lparr>default_port = 0, default_address = ''127.0.0.1''\<rparr>
        \<lparr>opt_port = Some 8080, opt_maxport = Some 8090, opt_hostname = None, opt_address = None\<rparr>)
      Function)) = 8082 \<and>
   attempts (snd (httpServer (\<lambda>p. Listening)
      (fst (httpServer (\<lambda>p. if p < 8082 then Errored EADDRINUSE else Listening)
        (factory \<lparr>default_port = 0, default_address = ''127.0.0.1''\<rparr>
        \<lparr>opt_port = Some 8080, opt_maxport = Some 8090, opt_hostname = None, opt_address = None\<rparr>)
        Function)) Function)) = [8082]"
proof -
  let ?env = "\<lambda>p::nat. if p < 8082 then Errored EADDRINUSE else Listening"
  let ?st = "\<lparr>port = 8080, max_port = 8090, hostname = ''127.0.0.1''\<rparr>"
  have f: "factory \<lparr>default_port = 0, default_address = ''127.0.0.1''\<rparr>
      \<lparr>opt_port = Some 8080, opt_maxport = Some 8090, opt_hostname = None,
      opt_address = None\<rparr> = ?st"
    by (simp add: factory_def)
  have tr: "snd (httpServer ?env ?st Function) =
      [Listen 8080 ''127.0.0.1'', Listen 8081 ''127.0.0.1'', Listen 8082 ''127.0.0.1'',
       Callback None (Server 8082)]"
    using server_listen_retry [of ?env ?st]
      server_listen_retry [of ?env "?st\<lparr>port := 8081\<rparr>"]
      server_listen_Listening [of ?env "?st\<lparr>port := 8082\<rparr>"]
    by (simp add: httpServer_def)
  have p: "port (fst (httpServer ?env ?st Function)) = 8082"
    using port_is_factory_state [of ?env ?st "\<lambda>p. Listening"] by (simp add: tr)
  have "fst (httpServer ?env ?st Function) = ?st\<lparr>port := 8082\<rparr>"
    using port_is_factory_state [of ?env ?st "\<lambda>p. Listening"] p
    by (cases "fst (httpServer ?env ?st Function)") simp
  then show ?thesis
    using p server_listen_Listening [of "\<lambda>p. Listening" "?st\<lparr>port := 8082\<rparr>"]
    by (simp add: f httpServer_def)
qed

section \<open>Properties of the disposable server\<close>

subsection \<open>The steps of the event loop\<close>

lemma step_Request_closing:
  "isClosing st \<Longrightarrow> rid \<notin> dom (responses st) \<Longrightarrow>
   step nd opts st (Request rid url) =
     st\<lparr> responses := (responses st)(rid \<mapsto> unavailable new_response) \<rparr>"
  by (auto simp: requestListener_def on_response_def)

lemma step_Request_bundle:
  "\<not> isClosing st \<Longrightarrow> rid \<notin> dom (responses st) \<Longrightarrow>
   step nd opts st (Request rid ''/bundle.js'') =
     st\<lparr> responses := (responses st)(rid \<mapsto> new_response\<lparr> finishListener := True \<rparr>),
         ticks := ticks st @ [(SendJavaScript, rid)] \<rparr>"
  by (auto simp: requestListener_def on_response_def)

lemma step_Request_html:
  "\<not> isClosing st \<Longrightarrow> rid \<notin> dom (responses st) \<Longrightarrow> url = ''/'' \<or> url = ''/index.html'' \<Longrightarrow>
   step nd opts st (Request rid url) =
     st\<lparr> responses := (responses st)(rid \<mapsto>
            new_response\<lparr> finishListener := \<not> truthy (javascript opts) \<rparr>),
         ticks := ticks st @ [(SendHTML, rid)] \<rparr>"
  by (auto simp: requestListener_def on_response_def new_response_def Let_def)

lemma step_Request_other:
  "\<not> isClosing st \<Longrightarrow> rid \<notin> dom (responses st) \<Longrightarrow>
   url \<noteq> ''/bundle.js'' \<Longrightarrow> url \<noteq> ''/'' \<Longrightarrow> url \<noteq> ''/index.html'' \<Longrightarrow>
   step nd opts st (Request rid url) =
     st\<lparr> responses := (responses st)(rid \<mapsto> notFound new_response) \<rparr>"
  by (auto simp: requestListener_def on_response_def)

lemma isClosing_step: "isClosing st \<Longrightarrow> isClosing (step nd opts st ev)"
  by (cases ev)
     (auto simp: requestListener_def on_response_def next_tick_def onFinish_def Let_def
           split: option.splits list.splits prod.splits)

lemma isClosing_run: "isClosing st \<Longrightarrow> isClosing (run nd opts st evs)"
  unfolding run_def by (induction evs arbitrary: st) (auto simp: isClosing_step)

lemma run_Cons: "run nd opts st (ev # evs) = run nd opts (step nd opts st ev) evs"
  by (simp add: run_def)

lemma run_Nil: "run nd opts st [] = st"
  by (simp add: run_def)

lemma byteLength_not_Undefined: "v \<noteq> Undefined \<Longrightarrow> \<exists>n. byteLength nd v = Inr n"
  by (cases v) (simp_all add: byteLength_def)

lemma html_tempHttpServer_opts: "\<exists>b. html (tempHttpServer_opts bp options) = JBuffer b"
  by (cases "html options") (simp_all add: tempHttpServer_opts_def Let_def)

lemma truthy_javascript_tempHttpServer_opts:
  "truthy (javascript (tempHttpServer_opts bp options)) = truthy (javascript options)"
  by (cases "javascript options") (simp_all add: tempHttpServer_opts_def Let_def)

lemma javascript_tempHttpServer_opts:
  "truthy (javascript options) \<Longrightarrow> \<exists>b. javascript (tempHttpServer_opts bp options) = JBuffer b"
  by (cases "javascript options") (simp_all add: tempHttpServer_opts_def Let_def)

lemma byteLength_JBuffer:
  "byteLength nd (JBuffer b) =
     Inr (if SUPPORTS_BUFFER nd then legacy_byteLength nd (JBuffer b)
          else length (utf8_encode (utf8_decode b)))"
  by (simp add: byteLength_def)

lemma sendHTML_JBuffer:
  "html opts = JBuffer b \<Longrightarrow> byteLength nd (JBuffer b) = Inr n \<Longrightarrow>
     sendHTML nd opts r =
       (r\<lparr> statusCode := 200,
           headers := (headers r)(''Content-Type'' \<mapsto> HString ''text/html'',
                                  ''Content-Length'' \<mapsto> HNumber n),
           body := b, ended := True \<rparr>, None)"
  by (simp add: sendHTML_def setHeader_def response_end_def Let_def)

lemma sendJavaScript_JBuffer:
  "javascript opts = JBuffer b \<Longrightarrow> byteLength nd (JBuffer b) = Inr n \<Longrightarrow>
     sendJavaScript nd opts r =
       (r\<lparr> statusCode := 200,
           headers := (headers r)(''Content-Type'' \<mapsto> HString ''text/javascript'',
                                  ''Content-Length'' \<mapsto> HNumber n),
           body := b, ended := True \<rparr>, None)"
  by (simp add: sendJavaScript_def setHeader_def response_end_def Let_def)

lemma step_Tick:
  "ticks st = (f, rid) # q \<Longrightarrow> responses st rid = Some r \<Longrightarrow>
   (case f of SendHTML \<Rightarrow> sendHTML nd opts r | SendJavaScript \<Rightarrow> sendJavaScript nd opts r) = (r', e) \<Longrightarrow>
   step nd opts st Tick =
     st\<lparr> ticks := q, responses := (responses st)(rid \<mapsto> r'),
         uncaught := uncaught st @ (case e of None \<Rightarrow> [] | Some x \<Rightarrow> [x]) \<rparr>"
  by (simp add: next_tick_def)

lemma step_Finish:
  "responses st rid = Some r \<Longrightarrow> ended r \<Longrightarrow> \<not> finished r \<Longrightarrow>
   step nd opts st (Finish rid) =
     (if finishListener r
      then st\<lparr> responses := (responses st)(rid \<mapsto> r\<lparr> finished := True, finishListener := False \<rparr>),
              isClosing := True, closeCalls := closeCalls st + 1,
              timers := timers st @ [(DestroyConnections, 5000)] \<rparr>
      else st\<lparr> responses := (responses st)(rid \<mapsto> r\<lparr> finished := True, finishListener := False \<rparr>) \<rparr>)"
  by (simp add: onFinish_def Let_def)

text \<open>The response of a request answered in the serving state, once its callback has run.\<close>

lemma serve_html:
  assumes "\<not> isClosing st" "rid \<notin> dom (responses st)" "ticks st = []"
    and "url = ''/'' \<or> url = ''/index.html''" and "html opts = JBuffer b"
    and "byteLength nd (JBuffer b) = Inr n"
  shows "run nd opts st [Request rid url, Tick] =
       st\<lparr> responses := (responses st)(rid \<mapsto>
              \<lparr> statusCode = 200,
                headers = [''Content-Type'' \<mapsto> HString ''text/html'',
                           ''Content-Length'' \<mapsto> HNumber n],
                body = b, ended = True, finishListener = \<not> truthy (javascript opts),
                finished = False \<rparr>) \<rparr>"
proof -
  let ?r = "new_response\<lparr> finishListener := \<not> truthy (javascript opts) \<rparr>"
  let ?st1 = "st\<lparr> responses := (responses st)(rid \<mapsto> ?r), ticks := [(SendHTML, rid)] \<rparr>"
  have 1: "step nd opts st (Request rid url) = ?st1"
    using step_Request_html [OF assms(1,2,4), of nd opts] assms(3) by simp
  have 2: "step nd opts ?st1 Tick =
      ?st1\<lparr> ticks := [], responses := (responses ?st1)(rid \<mapsto>
          ?r\<lparr> statusCode := 200,
              headers := (headers ?r)(''Content-Type'' \<mapsto> HString ''text/html'',
                                     ''Content-Length'' \<mapsto> HNumber n),
              body := b, ended := True \<rparr>),
        uncaught := uncaught ?st1 @ (case None of None \<Rightarrow> [] | Some x \<Rightarrow> [x]) \<rparr>"
    by (simp add: next_tick_def sendHTML_JBuffer [OF assms(5,6)] new_response_def)
  show ?thesis
    unfolding run_Cons run_Nil 1 2 using assms(3) by (simp add: new_response_def)
qed

lemma serve_bundle:
  assumes "\<not> isClosing st" "rid \<notin> dom (responses st)" "ticks st = []"
    and "javascript opts = JBuffer b" and "byteLength nd (JBuffer b) = Inr n"
  shows "run nd opts st [Request rid ''/bundle.js'', Tick] =
       st\<lparr> responses := (responses st)(rid \<mapsto>
              \<lparr> statusCode = 200,
                headers = [''Content-Type'' \<mapsto> HString ''text/javascript'',
                           ''Content-Length'' \<mapsto> HNumber n],
                body = b, ended = True, finishListener = True, finished = False \<rparr>) \<rparr>"
proof -
  let ?r = "new_response\<lparr> finishListener := True \<rparr>"
  let ?st1 = "st\<lparr> responses := (responses st)(rid \<mapsto> ?r), ticks := [(SendJavaScript, rid)] \<rparr>"
  have 1: "step nd opts st (Request rid ''/bundle.js'') = ?st1"
    using step_Request_bundle [OF assms(1,2), of nd opts] assms(3) by simp
  have 2: "step nd opts ?st1 Tick =
      ?st1\<lparr> ticks := [], responses := (responses ?st1)(rid \<mapsto>
          ?r\<lparr> statusCode := 200,
              headers := (headers ?r)(''Content-Type'' \<mapsto> HString ''text/javascript'',
                                     ''Content-Length'' \<mapsto> HNumber n),
              body := b, ended := True \<rparr>),
        uncaught := uncaught ?st1 @ (case None of None \<Rightarrow> [] | Some x \<Rightarrow> [x]) \<rparr>"
    by (simp add: next_tick_def sendJavaScript_JBuffer [OF assms(4,5)] new_response_def)
  show ?thesis
    unfolding run_Cons run_Nil 1 2 using assms(3) by (simp add: new_response_def)
qed

lemma serve_other:
  assumes "\<not> isClosing st" "rid \<notin> dom (responses st)" "ticks st = []"
    and "url \<noteq> ''/bundle.js''" "url \<noteq> ''/''" "url \<noteq> ''/index.html''"
  shows "run nd opts st [Request rid url, Tick] =
       st\<lparr> responses := (responses st)(rid \<mapsto>
              \<lparr> statusCode = 404, headers = Map.empty, body = [], ended = True,
                finishListener = False, finished = False \<rparr>) \<rparr>"
proof -
  have "step nd opts st (Request rid url) =
      st\<lparr> responses := (responses st)(rid \<mapsto> notFound new_response) \<rparr>"
    using assms by (intro step_Request_other)
  then show ?thesis
    using assms(3)
    by (simp add: run_Cons run_Nil notFound_def response_end_def new_response_def)
qed

subsection \<open>The finish handler\<close>

lemma finishListener_sendHTML: "finishListener (fst (sendHTML nd opts r)) = finishListener r"
  by (simp add: sendHTML_def setHeader_def response_end_def Let_def split: sum.splits)

lemma finishListener_sendJavaScript:
  "finishListener (fst (sendJavaScript nd opts r)) = finishListener r"
  by (simp add: sendJavaScript_def setHeader_def response_end_def Let_def split: sum.splits)

lemma no_listener_step:
  assumes "responses st rid = Some r" and "\<not> finishListener r"
  shows "\<exists>r'. responses (step nd opts st ev) rid = Some r' \<and> \<not> finishListener r'"
proof (cases ev)
  case (Request rid' url)
  show ?thesis
  proof (cases "rid' \<in> dom (responses st)")
    case True
    then show ?thesis using assms Request by simp
  next
    case False
    then have "rid' \<noteq> rid" using assms by auto
    then show ?thesis using assms Request False
      by (auto simp: requestListener_def on_response_def Let_def)
  qed
next
  case Tick
  show ?thesis
  proof (cases "ticks st")
    case Nil
    then show ?thesis using assms Tick by simp
  next
    case (Cons a q)
    obtain f rid' where a: "a = (f, rid')" by (cases a)
    show ?thesis
    proof (cases "responses st rid'")
      case None
      then show ?thesis using assms Tick Cons a by (simp add: next_tick_def)
    next
      case (Some r0)
      have "\<not> finishListener (fst (sendHTML nd opts r))"
        and "\<not> finishListener (fst (sendJavaScript nd opts r))"
        using assms(2) by (simp_all add: finishListener_sendHTML finishListener_sendJavaScript)
      then show ?thesis using assms Tick Cons a Some
        by (cases f) (auto simp: next_tick_def split: prod.splits)
    qed
  qed
next
  case (Finish rid')
  then show ?thesis using assms
    by (auto simp: onFinish_def Let_def split: option.splits)
qed

lemma no_listener_run:
  "responses st rid = Some r \<Longrightarrow> \<not> finishListener r \<Longrightarrow>
   \<exists>r'. responses (run nd opts st evs) rid = Some r' \<and> \<not> finishListener r'"
proof (induction evs arbitrary: st r)
  case Nil
  then show ?case by (simp add: run_Nil)
next
  case (Cons ev evs)
  obtain r' where "responses (step nd opts st ev) rid = Some r'" "\<not> finishListener r'"
    using no_listener_step [OF Cons.prems] by blast
  then show ?case using Cons.IH unfolding run_Cons by blast
qed

lemma Finish_without_listener:
  "responses st rid = Some r \<Longrightarrow> \<not> finishListener r \<Longrightarrow>
   isClosing (step nd opts st (Finish rid)) = isClosing st \<and>
   closeCalls (step nd opts st (Finish rid)) = closeCalls st \<and>
   timers (step nd opts st (Finish rid)) = timers st"
  by (simp add: Let_def)

lemma Finish_twice:
  "step nd opts (step nd opts st (Finish rid)) (Finish rid) = step nd opts st (Finish rid)"
  by (auto simp: onFinish_def Let_def split: option.splits)

subsection \<open>Decoding what was encoded\<close>

lemma unat_byte: "n < 256 \<Longrightarrow> unat (of_nat n :: 8 word) = n"
  by (simp add: unat_of_nat)

lemma decode_one_byte:
  "unat w1 = x1 \<Longrightarrow> x1 \<le> 0x7F \<Longrightarrow>
   utf8_decode_from 0 0 0 0x80 0xBF (w1 # rest) = x1 # utf8_decode_from 0 0 0 0x80 0xBF rest"
  by simp

lemma decode_two_bytes:
  "unat w1 = x1 \<Longrightarrow> 0xC2 \<le> x1 \<Longrightarrow> x1 \<le> 0xDF \<Longrightarrow>
   unat w2 = x2 \<Longrightarrow> 0x80 \<le> x2 \<Longrightarrow> x2 \<le> 0xBF \<Longrightarrow>
   utf8_decode_from 0 0 0 0x80 0xBF (w1 # w2 # rest) =
     (x1 mod 32 * 64 + x2 mod 64) # utf8_decode_from 0 0 0 0x80 0xBF rest"
  by simp

lemma decode_three_bytes:
  "unat w1 = x1 \<Longrightarrow> 0xE0 \<le> x1 \<Longrightarrow> x1 \<le> 0xEF \<Longrightarrow>
   unat w2 = x2 \<Longrightarrow> (if x1 = 0xE0 then 0xA0 else 0x80) \<le> x2 \<Longrightarrow>
   x2 \<le> (if x1 = 0xED then 0x9F else 0xBF) \<Longrightarrow>
   unat w3 = x3 \<Longrightarrow> 0x80 \<le> x3 \<Longrightarrow> x3 \<le> 0xBF \<Longrightarrow>
   utf8_decode_from 0 0 0 0x80 0xBF (w1 # w2 # w3 # rest) =
     ((x1 mod 16 * 64 + x2 mod 64) * 64 + x3 mod 64) # utf8_decode_from 0 0 0 0x80 0xBF rest"
  by (simp split: if_splits)

lemma decode_four_bytes:
  "unat w1 = x1 \<Longrightarrow> 0xF0 \<le> x1 \<Longrightarrow> x1 \<le> 0xF4 \<Longrightarrow>
   unat w2 = x2 \<Longrightarrow> (if x1 = 0xF0 then 0x90 else 0x80) \<le> x2 \<Longrightarrow>
   x2 \<le> (if x1 = 0xF4 then 0x8F else 0xBF) \<Longrightarrow>
   unat w3 = x3 \<Longrightarrow> 0x80 \<le> x3 \<Longrightarrow> x3 \<le> 0xBF \<Longrightarrow>
   unat w4 = x4 \<Longrightarrow> 0x80 \<le> x4 \<Longrightarrow> x4 \<le> 0xBF \<Longrightarrow>
   utf8_decode_from 0 0 0 0x80 0xBF (w1 # w2 # w3 # w4 # rest) =
     (((x1 mod 8 * 64 + x2 mod 64) * 64 + x3 mod 64) * 64 + x4 mod 64) #
     utf8_decode_from 0 0 0 0x80 0xBF rest"
  by (simp split: if_splits)


lemma mod_offset: "a < m \<Longrightarrow> (k * m + a) mod m = (a::nat)"
  by simp

lemma decode_utf8_bytes:
  assumes "cp < 0x110000"
  shows "utf8_decode_from 0 0 0 0x80 0xBF (utf8_bytes cp @ rest) =
         scalar cp # utf8_decode_from 0 0 0 0x80 0xBF rest"
proof -
  define d0 where "d0 = cp mod 64"
  define q1 where "q1 = cp div 64"
  define d1 where "d1 = q1 mod 64"
  define q2 where "q2 = q1 div 64"
  define d2 where "d2 = q2 mod 64"
  define q3 where "q3 = q2 div 64"
  have e0: "cp = q1 * 64 + d0" and e1: "q1 = q2 * 64 + d1" and e2: "q2 = q3 * 64 + d2"
    and l: "d0 < 64" "d1 < 64" "d2 < 64"
    by (simp_all add: d0_def q1_def d1_def q2_def d2_def q3_def)
  have q2: "cp div 4096 = q2" and q3: "cp div 262144 = q3"
    unfolding q3_def q2_def q1_def by (simp_all add: div_mult2_eq)
  have m0: "(0x80 + d0) mod 64 = d0" using mod_offset [OF l(1), of 2] by simp
  have m1: "(0x80 + d1) mod 64 = d1" using mod_offset [OF l(2), of 2] by simp
  have m2: "(0x80 + d2) mod 64 = d2" using mod_offset [OF l(3), of 2] by simp
  consider (one) "cp < 0x80" | (two) "0x80 \<le> cp" "cp < 0x800"
    | (surrogate) "0xD800 \<le> cp" "cp < 0xE000"
    | (three) "0x800 \<le> cp" "cp < 0x10000" "\<not> (0xD800 \<le> cp \<and> cp < 0xE000)"
    | (four) "0x10000 \<le> cp" "cp < 0x110000"
    using assms by linarith
  then show ?thesis
  proof cases
    case one
    have b: "utf8_bytes cp = [of_nat cp]" using one by (simp add: utf8_bytes_def)
    have s: "scalar cp = cp" using one by (simp add: scalar_def)
    have u: "unat (of_nat cp :: 8 word) = cp" using one by (intro unat_byte) simp
    show ?thesis unfolding b s using decode_one_byte [OF u] one by simp
  next
    case two
    define x1 where "x1 = 0xC0 + q1"
    define x2 where "x2 = 0x80 + d0"
    have b: "utf8_bytes cp = [of_nat x1, of_nat x2]"
      using two by (simp add: utf8_bytes_def x1_def x2_def q1_def d0_def)
    have s: "scalar cp = cp" using two by (simp add: scalar_def)
    have q: "2 \<le> q1" "q1 < 32" using two e0 l by arith+
    have r1: "0xC2 \<le> x1" "x1 \<le> 0xDF" and r2: "0x80 \<le> x2" "x2 \<le> 0xBF"
      using q l by (simp_all add: x1_def x2_def)
    have u1: "unat (of_nat x1 :: 8 word) = x1" using r1 by (intro unat_byte) simp
    have u2: "unat (of_nat x2 :: 8 word) = x2" using r2 by (intro unat_byte) simp
    have "x1 mod 32 = q1" unfolding x1_def using mod_offset [OF q(2), of 6] by simp
    then have v: "x1 mod 32 * 64 + x2 mod 64 = cp"
      unfolding x2_def m0 using e0 by simp
    show ?thesis
      unfolding b s using decode_two_bytes [OF u1 r1 u2 r2, of rest] v by simp
  next
    case surrogate
    have b: "utf8_bytes cp = [0xEF, 0xBF, 0xBD]" using surrogate by (simp add: utf8_bytes_def)
    have s: "scalar cp = 0xFFFD" using surrogate by (simp add: scalar_def)
    show ?thesis unfolding b s by simp
  next
    case three
    define x1 where "x1 = 0xE0 + q2"
    define x2 where "x2 = 0x80 + d1"
    define x3 where "x3 = 0x80 + d0"
    have b: "utf8_bytes cp = [of_nat x1, of_nat x2, of_nat x3]"
      using three q2 by (auto simp: utf8_bytes_def x1_def x2_def x3_def d1_def q1_def d0_def)
    have s: "scalar cp = cp" using three by (simp add: scalar_def)
    have q: "q2 < 16" using three e0 e1 l by arith
    have lo: "q2 = 0 \<Longrightarrow> 32 \<le> d1" using three e0 e1 l by arith
    have hi: "q2 = 13 \<Longrightarrow> d1 < 32" using three e0 e1 l by arith
    have r1: "0xE0 \<le> x1" "x1 \<le> 0xEF" using q by (simp_all add: x1_def)
    have r2: "(if x1 = 0xE0 then 0xA0 else 0x80) \<le> x2" "x2 \<le> (if x1 = 0xED then 0x9F else 0xBF)"
      using lo hi l by (auto simp: x1_def x2_def)
    have r3: "0x80 \<le> x3" "x3 \<le> 0xBF" using l by (simp_all add: x3_def)
    have u1: "unat (of_nat x1 :: 8 word) = x1" using r1 by (intro unat_byte) simp
    have u2: "unat (of_nat x2 :: 8 word) = x2" using l by (intro unat_byte) (simp add: x2_def)
    have u3: "unat (of_nat x3 :: 8 word) = x3" using r3 by (intro unat_byte) simp
    have "x1 mod 16 = q2" unfolding x1_def using mod_offset [OF q, of 14] by simp
    then have v: "(x1 mod 16 * 64 + x2 mod 64) * 64 + x3 mod 64 = cp"
      unfolding x2_def x3_def m0 m1 using e0 e1 by simp
    show ?thesis
      unfolding b s using decode_three_bytes [OF u1 r1 u2 r2 u3 r3, of rest] v by simp
  next
    case four
    define x1 where "x1 = 0xF0 + q3"
    define x2 where "x2 = 0x80 + d2"
    define x3 where "x3 = 0x80 + d1"
    define x4 where "x4 = 0x80 + d0"
    have b: "utf8_bytes cp = [of_nat x1, of_nat x2, of_nat x3, of_nat x4]"
      using four q2 q3
      by (auto simp: utf8_bytes_def x1_def x2_def x3_def x4_def d2_def d1_def q2_def q1_def d0_def)
    have s: "scalar cp = cp" using four by (simp add: scalar_def)
    have q: "q3 < 5" using four e0 e1 e2 l by arith
    have lo: "q3 = 0 \<Longrightarrow> 16 \<le> d2" using four e0 e1 e2 l by arith
    have hi: "q3 = 4 \<Longrightarrow> d2 < 16" using four e0 e1 e2 l by arith
    have r1: "0xF0 \<le> x1" "x1 \<le> 0xF4" using q by (simp_all add: x1_def)
    have r2: "(if x1 = 0xF0 then 0x90 else 0x80) \<le> x2" "x2 \<le> (if x1 = 0xF4 then 0x8F else 0xBF)"
      using lo hi l by (auto simp: x1_def x2_def)
    have r3: "0x80 \<le> x3" "x3 \<le> 0xBF" using l by (simp_all add: x3_def)
    have r4: "0x80 \<le> x4" "x4 \<le> 0xBF" using l by (simp_all add: x4_def)
    have u1: "unat (of_nat x1 :: 8 word) = x1" using r1 by (intro unat_byte) simp
    have u2: "unat (of_nat x2 :: 8 word) = x2" using l by (intro unat_byte) (simp add: x2_def)
    have u3: "unat (of_nat x3 :: 8 word) = x3" using r3 by (intro unat_byte) simp
    have u4: "unat (of_nat x4 :: 8 word) = x4" using r4 by (intro unat_byte) simp
    have "q3 < 8" using q by simp
    then have "x1 mod 8 = q3" unfolding x1_def using mod_offset [of q3 8 30] by simp
    then have v: "((x1 mod 8 * 64 + x2 mod 64) * 64 + x3 mod 64) * 64 + x4 mod 64 = cp"
      unfolding x2_def x3_def x4_def m0 m1 m2 using e0 e1 e2 by simp
    show ?thesis
      unfolding b s using decode_four_bytes [OF u1 r1 u2 r2 u3 r3 u4 r4, of rest] v by simp
  qed
qed

lemma utf8_decode_encode:
  "\<forall>cp \<in> set s. cp < 0x110000 \<Longrightarrow> utf8_decode (utf8_encode s) = map scalar s"
  unfolding utf8_decode_def utf8_encode_def
  by (induction s) (simp_all add: decode_utf8_bytes)

lemma length_utf8_bytes_scalar: "length (utf8_bytes (scalar cp)) = length (utf8_bytes cp)"
  by (simp add: scalar_def utf8_bytes_def)

lemma length_utf8_encode_scalar: "length (utf8_encode (map scalar s)) = length (utf8_encode s)"
  by (induction s) (simp_all add: utf8_encode_def length_utf8_bytes_scalar)

lemma byteLength_of_encoded_string:
  "\<forall>cp \<in> set s. cp < 0x110000 \<Longrightarrow> \<not> SUPPORTS_BUFFER nd \<Longrightarrow>
   byteLength nd (JBuffer (utf8_encode s)) = Inr (length (utf8_encode s))"
  by (simp add: byteLength_def utf8_decode_encode length_utf8_encode_scalar)


text \<open>
  What holds of the content length: when the HTML is given as a string (not empty, of
  code points below \<open>0x110000\<close>) and \<open>SUPPORTS_BUFFER\<close> is false, the header is the
  number of bytes of the body.
\<close>

lemma content_length_of_string_payload:
  assumes "\<forall>cp \<in> set s. cp < 0x110000" and "s \<noteq> []" and "\<not> SUPPORTS_BUFFER nd"
    and "opts = tempHttpServer_opts boilerplate \<lparr>html = JString s, javascript = j\<rparr>"
  shows "headers (fst (sendHTML nd opts r)) ''Content-Length'' =
           Some (HNumber (length (body (fst (sendHTML nd opts r))))) \<and>
         body (fst (sendHTML nd opts r)) = utf8_encode s"
proof -
  have h: "html opts = JBuffer (utf8_encode s)"
    using assms(2,4) by (simp add: tempHttpServer_opts_def Let_def)
  show ?thesis
    using byteLength_of_encoded_string [OF assms(1,3)]
    by (simp add: sendHTML_def h setHeader_def response_end_def Let_def)
qed

text \<open>
  C3. Take a server in the serving state and a request with a new response object. When
  JavaScript content is configured and the request is not for \<open>/bundle.js\<close> (so also
  when it is for \<open>/\<close> or \<open>/index.html\<close>), the finish event of its response never
  closes the server, whatever happens in between: the closing flag, the number of close
  calls and the timers stay as they are. When JavaScript content is configured, the
  finish event of the response to \<open>/bundle.js\<close> closes the server. When no JavaScript
  content is configured, the finish event of the response to \<open>/\<close> or \<open>/index.html\<close>
  closes the server.
\<close>

theorem finishing_armed_by_configuration:
  assumes "\<not> isClosing st" and "rid \<notin> dom (responses st)"
    and "opts = tempHttpServer_opts boilerplate options"
  shows "(truthy (javascript options) \<and> url \<noteq> ''/bundle.js'' \<longrightarrow>
            (\<forall>evs. isClosing (step nd opts (run nd opts st (Request rid url # evs)) (Finish rid)) =
                     isClosing (run nd opts st (Request rid url # evs)) \<and>
                   closeCalls (step nd opts (run nd opts st (Request rid url # evs)) (Finish rid)) =
                     closeCalls (run nd opts st (Request rid url # evs)) \<and>
                   timers (step nd opts (run nd opts st (Request rid url # evs)) (Finish rid)) =
                     timers (run nd opts st (Request rid url # evs)))) \<and>
         (truthy (javascript options) \<and> ticks st = [] \<longrightarrow>
            isClosing (run nd opts st [Request rid ''/bundle.js'', Tick, Finish rid]) \<and>
            closeCalls (run nd opts st [Request rid ''/bundle.js'', Tick, Finish rid]) =
              closeCalls st + 1) \<and>
         (\<not> truthy (javascript options) \<and> ticks st = [] \<and> (url = ''/'' \<or> url = ''/index.html'') \<longrightarrow>
            isClosing (run nd opts st [Request rid url, Tick, Finish rid]) \<and>
            closeCalls (run nd opts st [Request rid url, Tick, Finish rid]) = closeCalls st + 1)"
proof (intro conjI impI allI)
  have js: "truthy (javascript opts) = truthy (javascript options)"
    using assms(3) by (simp add: truthy_javascript_tempHttpServer_opts)
  obtain h where h: "html opts = JBuffer h"
    using assms(3) html_tempHttpServer_opts by blast
  obtain n where n: "byteLength nd (JBuffer h) = Inr n"
    by (simp add: byteLength_JBuffer)
  {
    fix evs
    assume a: "truthy (javascript options) \<and> url \<noteq> ''/bundle.js''"
    let ?s1 = "step nd opts st (Request rid url)"
    have "\<exists>r. responses ?s1 rid = Some r \<and> \<not> finishListener r"
    proof (cases "url = ''/'' \<or> url = ''/index.html''")
      case True
      show ?thesis
        unfolding step_Request_html [OF assms(1,2) True]
        using a js by (simp add: new_response_def)
    next
      case False
      have "?s1 = st\<lparr> responses := (responses st)(rid \<mapsto> notFound new_response) \<rparr>"
        using a False by (intro step_Request_other [OF assms(1,2)]) simp_all
      then show ?thesis
        by (simp add: notFound_def response_end_def new_response_def)
    qed
    then obtain r where "responses (run nd opts ?s1 evs) rid = Some r" "\<not> finishListener r"
      using no_listener_run by blast
    then have *: "isClosing (step nd opts (run nd opts ?s1 evs) (Finish rid)) =
          isClosing (run nd opts ?s1 evs) \<and>
        closeCalls (step nd opts (run nd opts ?s1 evs) (Finish rid)) =
          closeCalls (run nd opts ?s1 evs) \<and>
        timers (step nd opts (run nd opts ?s1 evs) (Finish rid)) =
          timers (run nd opts ?s1 evs)"
      by (rule Finish_without_listener)
    show "isClosing (step nd opts (run nd opts st (Request rid url # evs)) (Finish rid)) =
          isClosing (run nd opts st (Request rid url # evs))"
      using * by (simp add: run_Cons)
    show "closeCalls (step nd opts (run nd opts st (Request rid url # evs)) (Finish rid)) =
          closeCalls (run nd opts st (Request rid url # evs))"
      using * by (simp add: run_Cons)
    show "timers (step nd opts (run nd opts st (Request rid url # evs)) (Finish rid)) =
          timers (run nd opts st (Request rid url # evs))"
      using * by (simp add: run_Cons)
  }
  {
    assume a: "truthy (javascript options) \<and> ticks st = []"
    then obtain j where j: "javascript opts = JBuffer j"
      using assms(3) javascript_tempHttpServer_opts by blast
    obtain m where m: "byteLength nd (JBuffer j) = Inr m"
      by (simp add: byteLength_JBuffer)
    have "run nd opts st [Request rid ''/bundle.js'', Tick, Finish rid] =
        step nd opts (run nd opts st [Request rid ''/bundle.js'', Tick]) (Finish rid)"
      by (simp add: run_def)
    then have r: "isClosing (run nd opts st [Request rid ''/bundle.js'', Tick, Finish rid]) \<and>
        closeCalls (run nd opts st [Request rid ''/bundle.js'', Tick, Finish rid]) = closeCalls st + 1"
      using a by (simp add: serve_bundle [OF assms(1,2) _ j m] onFinish_def)
    show "isClosing (run nd opts st [Request rid ''/bundle.js'', Tick, Finish rid])"
      using r by simp
    show "closeCalls (run nd opts st [Request rid ''/bundle.js'', Tick, Finish rid]) = closeCalls st + 1"
      using r by simp
  }
  {
    assume a: "\<not> truthy (javascript options) \<and> ticks st = [] \<and> (url = ''/'' \<or> url = ''/index.html'')"
    have "run nd opts st [Request rid url, Tick, Finish rid] =
        step nd opts (run nd opts st [Request rid url, Tick]) (Finish rid)"
      by (simp add: run_def)
    then have r: "isClosing (run nd opts st [Request rid url, Tick, Finish rid]) \<and>
        closeCalls (run nd opts st [Request rid url, Tick, Finish rid]) = closeCalls st + 1"
      using a js by (simp add: serve_html [OF assms(1,2) _ _ h n] onFinish_def)
    show "isClosing (run nd opts st [Request rid url, Tick, Finish rid])"
      using r by simp
    show "closeCalls (run nd opts st [Request rid url, Tick, Finish rid]) = closeCalls st + 1"
      using r by simp
  }
qed

lemma run_snoc: "run nd opts st (evs @ [ev]) = step nd opts (run nd opts st evs) ev"
  by (simp add: run_def)

lemma utf8_decode_FF: "utf8_decode [0xFF] = [0xFFFD]"
  by (simp add: utf8_decode_def)

lemma utf8_encode_FFFD: "utf8_encode [0xFFFD] = [0xEF, 0xBF, 0xBD]"
  by (simp add: utf8_encode_def utf8_bytes_def)

lemma utf8_decode_A: "utf8_decode [0x41] = [0x41]"
  by (simp add: utf8_decode_def)

lemma utf8_encode_A: "utf8_encode [0x41] = [0x41]"
  by (simp add: utf8_encode_def utf8_bytes_def)

theorem finishing_armed_by_configuration_witness:
  "isClosing (run \<lparr>major = 18, legacy_byteLength = (\<lambda>v. 0)\<rparr>
       (tempHttpServer_opts [0x41] \<lparr>html = Undefined, javascript = JString [0x41]\<rparr>) init
       [Request 0 ''/'', Tick, Finish 0]) = False \<and>
   isClosing (run \<lparr>major = 18, legacy_byteLength = (\<lambda>v. 0)\<rparr>
       (tempHttpServer_opts [0x41] \<lparr>html = Undefined, javascript = JString [0x41]\<rparr>) init
       [Request 0 ''/bundle.js'', Tick, Finish 0]) = True \<and>
   isClosing (run \<lparr>major = 18, legacy_byteLength = (\<lambda>v. 0)\<rparr>
       (tempHttpServer_opts [0x41] \<lparr>html = Undefined, javascript = Undefined\<rparr>) init
       [Request 0 ''/'', Tick, Finish 0]) = True"
proof -
  let ?nd = "\<lparr>major = 18, legacy_byteLength = (\<lambda>v. 0)\<rparr>"
  let ?js = "\<lparr>html = Undefined, javascript = JString [0x41]\<rparr>"
  let ?no = "\<lparr>html = Undefined, javascript = Undefined\<rparr>"
  have i: "\<not> isClosing init" "0 \<notin> dom (responses init)" "ticks init = []"
    by (simp_all add: init_def)
  have h: "html (tempHttpServer_opts [0x41] ?js) = JBuffer [0x41]"
    by (simp add: tempHttpServer_opts_def)
  have b: "byteLength ?nd (JBuffer [0x41]) = Inr 1"
    by (simp add: byteLength_def SUPPORTS_BUFFER_def utf8_decode_A utf8_encode_A)
  have pre: "\<not> isClosing (run ?nd (tempHttpServer_opts [0x41] ?js) init [Request 0 ''/'', Tick])"
    using serve_html [OF i, of "''/''" "tempHttpServer_opts [0x41] ?js" "[0x41]" ?nd 1] h b
    by (simp add: init_def)
  have "\<forall>evs. isClosing (step ?nd (tempHttpServer_opts [0x41] ?js)
            (run ?nd (tempHttpServer_opts [0x41] ?js) init (Request 0 ''/'' # evs)) (Finish 0)) =
          isClosing (run ?nd (tempHttpServer_opts [0x41] ?js) init (Request 0 ''/'' # evs))"
    using finishing_armed_by_configuration [OF i(1,2) refl, of ?js "''/''" ?nd "[0x41]"]
    by simp
  then have "isClosing (step ?nd (tempHttpServer_opts [0x41] ?js)
            (run ?nd (tempHttpServer_opts [0x41] ?js) init [Request 0 ''/'', Tick]) (Finish 0)) =
          isClosing (run ?nd (tempHttpServer_opts [0x41] ?js) init [Request 0 ''/'', Tick])"
    by (rule spec)
  then have 1: "isClosing (run ?nd (tempHttpServer_opts [0x41] ?js) init [Request 0 ''/'', Tick, Finish 0]) = False"
    using pre run_snoc [of ?nd "tempHttpServer_opts [0x41] ?js" init "[Request 0 ''/'', Tick]" "Finish 0"]
    by simp
  have 2: "isClosing (run ?nd (tempHttpServer_opts [0x41] ?js) init [Request 0 ''/bundle.js'', Tick, Finish 0]) = True"
    using finishing_armed_by_configuration [OF i(1,2) refl, of ?js "''/''" ?nd "[0x41]"] i(3)
    by simp
  have 3: "isClosing (run ?nd (tempHttpServer_opts [0x41] ?no) init [Request 0 ''/'', Tick, Finish 0]) = True"
    using finishing_armed_by_configuration [OF i(1,2) refl, of ?no "''/''" ?nd "[0x41]"] i(3)
    by simp
  show ?thesis using 1 2 3 by simp
qed

text \<open>
  C4, as stated, fails: with no JavaScript configured, two requests for \<open>/\<close> are answered
  before either response has finished; each finish event then calls \<open>server.close()\<close>
  and sets a timer.
\<close>

theorem finishing_actions_run_twice:
  "closeCalls (run \<lparr>major = 18, legacy_byteLength = (\<lambda>v. 0)\<rparr>
       \<lparr>html = JBuffer [0x41], javascript = Undefined\<rparr> init
       [Request 1 ''/'', Tick, Request 2 ''/'', Tick, Finish 1, Finish 2]) = 2 \<and>
   timers (run \<lparr>major = 18, legacy_byteLength = (\<lambda>v. 0)\<rparr>
       \<lparr>html = JBuffer [0x41], javascript = Undefined\<rparr> init
       [Request 1 ''/'', Tick, Request 2 ''/'', Tick, Finish 1, Finish 2]) =
     [(DestroyConnections, 5000), (DestroyConnections, 5000)]"
  by (simp add: run_def init_def requestListener_def on_response_def next_tick_def
        sendHTML_def byteLength_def SUPPORTS_BUFFER_def utf8_decode_A utf8_encode_A
        setHeader_def response_end_def new_response_def onFinish_def Let_def)

text \<open>
  C4, amended. The closing flag, once set, is never cleared, so a server enters the
  finishing state at most once and never leaves it. Once it is set, every further request
  is answered at once with status 503 and an empty body, whatever its path, and nothing
  is deferred. The actions of finishing (setting the flag, calling close, setting the
  timer of 5000 for the destruction of the connections) run once for every response
  that carries the finish handler and finishes, not once for the server; a second
  finish event on the same response does nothing.
\<close>

theorem finishing_is_permanent:
  "(isClosing st \<longrightarrow> isClosing (run nd opts st evs)) \<and>
   (isClosing st \<and> rid \<notin> dom (responses st) \<longrightarrow>
      step nd opts st (Request rid url) =
        st\<lparr> responses := (responses st)(rid \<mapsto>
               \<lparr> statusCode = 503, headers = Map.empty, body = [], ended = True,
                 finishListener = False, finished = False \<rparr>) \<rparr>) \<and>
   (responses st rid = Some r \<and> ended r \<and> \<not> finished r \<and> finishListener r \<longrightarrow>
      isClosing (step nd opts st (Finish rid)) \<and>
      closeCalls (step nd opts st (Finish rid)) = closeCalls st + 1 \<and>
      timers (step nd opts st (Finish rid)) = timers st @ [(DestroyConnections, 5000)]) \<and>
   step nd opts (step nd opts st (Finish rid)) (Finish rid) = step nd opts st (Finish rid)"
proof (intro conjI impI)
  show "isClosing st \<Longrightarrow> isClosing (run nd opts st evs)"
    by (rule isClosing_run)
  show "isClosing st \<and> rid \<notin> dom (responses st) \<Longrightarrow>
      step nd opts st (Request rid url) =
        st\<lparr> responses := (responses st)(rid \<mapsto>
               \<lparr> statusCode = 503, headers = Map.empty, body = [], ended = True,
                 finishListener = False, finished = False \<rparr>) \<rparr>"
    using step_Request_closing [of st rid nd opts url]
    by (simp add: unavailable_def response_end_def new_response_def)
  assume a: "responses st rid = Some r \<and> ended r \<and> \<not> finished r \<and> finishListener r"
  then have s: "step nd opts st (Finish rid) =
      st\<lparr> responses := (responses st)(rid \<mapsto> r\<lparr> finished := True, finishListener := False \<rparr>),
          isClosing := True, closeCalls := closeCalls st + 1,
          timers := timers st @ [(DestroyConnections, 5000)] \<rparr>"
    using step_Finish [of st rid r nd opts] by simp
  show "isClosing (step nd opts st (Finish rid))" unfolding s by simp
  show "closeCalls (step nd opts st (Finish rid)) = closeCalls st + 1" unfolding s by simp
  show "timers (step nd opts st (Finish rid)) = timers st @ [(DestroyConnections, 5000)]"
    unfolding s by simp
next
  show "step nd opts (step nd opts st (Finish rid)) (Finish rid) = step nd opts st (Finish rid)"
    by (rule Finish_twice)
qed

theorem finishing_is_permanent_witness:
  "map_option statusCode (responses (run \<lparr>major = 18, legacy_byteLength = (\<lambda>v. 0)\<rparr>
       \<lparr>html = JBuffer [0x41], javascript = Undefined\<rparr> init
       [Request 1 ''/'', Tick, Finish 1, Request 2 ''/'']) 2) = Some 503 \<and>
   closeCalls (run \<lparr>major = 18, legacy_byteLength = (\<lambda>v. 0)\<rparr>
       \<lparr>html = JBuffer [0x41], javascript = Undefined\<rparr> init
       [Request 1 ''/'', Tick, Finish 1]) = 1"
proof -
  let ?nd = "\<lparr>major = 18, legacy_byteLength = (\<lambda>v. 0)\<rparr>"
  let ?opts = "\<lparr>html = JBuffer [0x41], javascript = Undefined\<rparr>"
  let ?r = "\<lparr> statusCode = 200,
            headers = [''Content-Type'' \<mapsto> HString ''text/html'', ''Content-Length'' \<mapsto> HNumber 1],
            body = [0x41], ended = True, finishListener = True, finished = False \<rparr>"
  let ?s2 = "run ?nd ?opts init [Request 1 ''/'', Tick]"
  let ?s3 = "step ?nd ?opts ?s2 (Finish 1)"
  have i: "\<not> isClosing init" "1 \<notin> dom (responses init)" "ticks init = []"
    by (simp_all add: init_def)
  have b: "byteLength ?nd (JBuffer [0x41]) = Inr 1"
    by (simp add: byteLength_def SUPPORTS_BUFFER_def utf8_decode_A utf8_encode_A)
  have s2: "?s2 = init\<lparr> responses := (responses init)(1 \<mapsto> ?r) \<rparr>"
    using serve_html [OF i, of "''/''" ?opts "[0x41]" ?nd 1] b by simp
  have r: "responses ?s2 1 = Some ?r" "closeCalls ?s2 = 0"
    unfolding s2 by (simp_all add: init_def)
  have f: "isClosing ?s3 \<and> closeCalls ?s3 = 1"
    using finishing_is_permanent [of ?s2 ?nd ?opts "[]" 1 "''/''" ?r] r by simp
  have fresh: "2 \<notin> dom (responses ?s3)"
    unfolding s2 by (simp add: init_def onFinish_def Let_def)
  have "map_option statusCode (responses (step ?nd ?opts ?s3 (Request 2 ''/'')) 2) = Some 503"
    using finishing_is_permanent [of ?s3 ?nd ?opts "[]" 2 "''/''"] f fresh by simp
  then show ?thesis using f by (simp add: run_def)
qed

text \<open>
  C6, as stated, fails: on a server with no JavaScript configured, run by Node.js 18, the
  callback deferred for a request for \<open>/bundle.js\<close> throws a \<open>TypeError\<close> when it
  computes the content length, and the response is never ended.
\<close>

theorem bundle_without_javascript_not_served:
  "map_option ended (responses (run \<lparr>major = 18, legacy_byteLength = (\<lambda>v. 0)\<rparr>
       (tempHttpServer_opts [0x41] \<lparr>html = Undefined, javascript = Undefined\<rparr>) init
       [Request 0 ''/bundle.js'', Tick]) 0) = Some False \<and>
   uncaught (run \<lparr>major = 18, legacy_byteLength = (\<lambda>v. 0)\<rparr>
       (tempHttpServer_opts [0x41] \<lparr>html = Undefined, javascript = Undefined\<rparr>) init
       [Request 0 ''/bundle.js'', Tick]) = [TypeError ''Cannot read properties of undefined'']"
  by (simp add: run_def init_def requestListener_def on_response_def next_tick_def
        sendJavaScript_def byteLength_def SUPPORTS_BUFFER_def tempHttpServer_opts_def
        setHeader_def new_response_def Let_def)

text \<open>
  C6, amended. A request received in the serving state (with a new response object and
  no callback pending) is answered by its path, once its deferred callback has run: for
  \<open>/\<close> and \<open>/index.html\<close>, status 200, the HTML payload as body, content type
  \<open>text/html\<close> and the content length that \<open>byteLength\<close> computes; for \<open>/bundle.js\<close>,
  when JavaScript content is configured, status 200, the JavaScript payload as body and
  content type \<open>text/javascript\<close>; for every other path, status 404, an empty body and
  no header.
\<close>

theorem routing_in_serving:
  assumes "\<not> isClosing st" and "rid \<notin> dom (responses st)" and "ticks st = []"
    and "opts = tempHttpServer_opts boilerplate options"
  shows "\<exists>r. responses (run nd opts st [Request rid url, Tick]) rid = Some r \<and>
     (if url = ''/bundle.js'' then
        (truthy (javascript options) \<longrightarrow>
           statusCode r = 200 \<and> JBuffer (body r) = javascript opts \<and>
           headers r ''Content-Type'' = Some (HString ''text/javascript'') \<and> ended r)
      else if url \<noteq> ''/'' \<and> url \<noteq> ''/index.html'' then
        statusCode r = 404 \<and> body r = [] \<and> headers r = Map.empty \<and> ended r
      else
        statusCode r = 200 \<and> JBuffer (body r) = html opts \<and>
        headers r ''Content-Type'' = Some (HString ''text/html'') \<and>
        (\<exists>n. byteLength nd (html opts) = Inr n \<and>
             headers r ''Content-Length'' = Some (HNumber n)) \<and>
        ended r)"
proof -
  consider (script) "url = ''/bundle.js''" "truthy (javascript options)"
    | (absent) "url = ''/bundle.js''" "\<not> truthy (javascript options)"
    | (other) "url \<noteq> ''/bundle.js''" "url \<noteq> ''/''" "url \<noteq> ''/index.html''"
    | (page) "url = ''/'' \<or> url = ''/index.html''"
    by blast
  then show ?thesis
  proof cases
    case script
    obtain j where j: "javascript opts = JBuffer j"
      using assms(4) script(2) javascript_tempHttpServer_opts by blast
    obtain m where m: "byteLength nd (JBuffer j) = Inr m"
      by (simp add: byteLength_JBuffer)
    show ?thesis
      unfolding script(1) serve_bundle [OF assms(1-3) j m] using j by simp
  next
    case absent
    have "\<exists>r. responses (run nd opts st [Request rid ''/bundle.js'', Tick]) rid = Some r"
      unfolding run_Cons run_Nil step_Request_bundle [OF assms(1,2)]
      using assms(3) by (simp add: next_tick_def split: prod.splits)
    then show ?thesis using absent by simp
  next
    case other
    show ?thesis
      unfolding serve_other [OF assms(1-3) other] using other by simp
  next
    case page
    obtain h where h: "html opts = JBuffer h"
      using assms(4) html_tempHttpServer_opts by blast
    obtain n where n: "byteLength nd (JBuffer h) = Inr n"
      by (simp add: byteLength_JBuffer)
    show ?thesis
      unfolding serve_html [OF assms(1-3) page h n] using page h n by auto
  qed
qed

theorem routing_in_serving_witness:
  "map_option statusCode (responses (run \<lparr>major = 18, legacy_byteLength = (\<lambda>v. 0)\<rparr>
       (tempHttpServer_opts [0x41] \<lparr>html = Undefined, javascript = Undefined\<rparr>) init
       [Request 0 ''/favicon.ico'', Tick]) 0) = Some 404 \<and>
   map_option body (responses (run \<lparr>major = 18, legacy_byteLength = (\<lambda>v. 0)\<rparr>
       (tempHttpServer_opts [0x41] \<lparr>html = Undefined, javascript = Undefined\<rparr>) init
       [Request 0 ''/index.html'', Tick]) 0) = Some [0x41] \<and>
   map_option statusCode (responses (run \<lparr>major = 18, legacy_byteLength = (\<lambda>v. 0)\<rparr>
       (tempHttpServer_opts [0x41] \<lparr>html = Undefined, javascript = JBuffer [0x42]\<rparr>) init
       [Request 0 ''/bundle.js'', Tick]) 0) = Some 200"
proof -
  let ?nd = "\<lparr>major = 18, legacy_byteLength = (\<lambda>v. 0)\<rparr>"
  have i: "\<not> isClosing init" "0 \<notin> dom (responses init)" "ticks init = []"
    by (simp_all add: init_def)
  have 1: "map_option statusCode (responses (run ?nd
       (tempHttpServer_opts [0x41] \<lparr>html = Undefined, javascript = Undefined\<rparr>) init
       [Request 0 ''/favicon.ico'', Tick]) 0) = Some 404"
    using routing_in_serving [OF i refl, of ?nd "[0x41]"
        "\<lparr>html = Undefined, javascript = Undefined\<rparr>" "''/favicon.ico''"]
    by auto
  have 2: "map_option body (responses (run ?nd
       (tempHttpServer_opts [0x41] \<lparr>html = Undefined, javascript = Undefined\<rparr>) init
       [Request 0 ''/index.html'', Tick]) 0) = Some [0x41]"
    using routing_in_serving [OF i refl, of ?nd "[0x41]"
        "\<lparr>html = Undefined, javascript = Undefined\<rparr>" "''/index.html''"]
    by (auto simp: tempHttpServer_opts_def)
  have 3: "map_option statusCode (responses (run ?nd
       (tempHttpServer_opts [0x41] \<lparr>html = Undefined, javascript = JBuffer [0x42]\<rparr>) init
       [Request 0 ''/bundle.js'', Tick]) 0) = Some 200"
    using routing_in_serving [OF i refl, of ?nd "[0x41]"
        "\<lparr>html = Undefined, javascript = JBuffer [0x42]\<rparr>" "''/bundle.js''"]
    by auto
  show ?thesis using 1 2 3 by simp
qed

text \<open>
  C7, as stated, fails: the 404 response is ended inside the request listener, and no
  callback is deferred for it.
\<close>

theorem not_found_is_synchronous:
  "map_option ended (responses (step \<lparr>major = 18, legacy_byteLength = (\<lambda>v. 0)\<rparr>
       \<lparr>html = JBuffer [0x41], javascript = Undefined\<rparr> init (Request 0 ''/favicon.ico'')) 0) =
     Some True \<and>
   map_option statusCode (responses (step \<lparr>major = 18, legacy_byteLength = (\<lambda>v. 0)\<rparr>
       \<lparr>html = JBuffer [0x41], javascript = Undefined\<rparr> init (Request 0 ''/favicon.ico'')) 0) =
     Some 404 \<and>
   ticks (step \<lparr>major = 18, legacy_byteLength = (\<lambda>v. 0)\<rparr>
       \<lparr>html = JBuffer [0x41], javascript = Undefined\<rparr> init (Request 0 ''/favicon.ico'')) = []"
  by (simp add: init_def requestListener_def on_response_def notFound_def response_end_def
        new_response_def)

text \<open>
  C7, amended. For a request received in the serving state for \<open>/\<close>, \<open>/index.html\<close> or
  \<open>/bundle.js\<close>, the request listener does not end the response: it appends one callback
  for it to the queue of the next tick, and the response is sent when that callback runs.
  The 404 response (any other path) and the 503 response (closing flag set) are ended
  inside the request listener, and nothing is deferred for them.
\<close>

theorem deferred_only_for_content:
  assumes "rid \<notin> dom (responses st)"
  shows "\<exists>r. responses (step nd opts st (Request rid url)) rid = Some r \<and>
     (if \<not> isClosing st \<and> (url = ''/bundle.js'' \<or> url = ''/'' \<or> url = ''/index.html'') then
        \<not> ended r \<and>
        ticks (step nd opts st (Request rid url)) =
          ticks st @ [(if url = ''/bundle.js'' then SendJavaScript else SendHTML, rid)]
      else
        ended r \<and> body r = [] \<and> statusCode r = (if isClosing st then 503 else 404) \<and>
        ticks (step nd opts st (Request rid url)) = ticks st)"
proof (cases "isClosing st")
  case True
  show ?thesis
    unfolding step_Request_closing [OF True assms]
    using True by (simp add: unavailable_def response_end_def)
next
  case False
  consider (script) "url = ''/bundle.js''" | (page) "url = ''/'' \<or> url = ''/index.html''"
    | (other) "url \<noteq> ''/bundle.js''" "url \<noteq> ''/''" "url \<noteq> ''/index.html''"
    by blast
  then show ?thesis
  proof cases
    case script
    show ?thesis
      unfolding script step_Request_bundle [OF False assms]
      using False by (simp add: new_response_def)
  next
    case page
    show ?thesis
      unfolding step_Request_html [OF False assms page]
      using False page by (auto simp: new_response_def)
  next
    case other
    show ?thesis
      unfolding step_Request_other [OF False assms other]
      using False other by (simp add: notFound_def response_end_def)
  qed
qed

theorem deferred_only_for_content_witness:
  "ticks (step \<lparr>major = 18, legacy_byteLength = (\<lambda>v. 0)\<rparr>
       \<lparr>html = JBuffer [0x41], javascript = Undefined\<rparr> init (Request 0 ''/'')) = [(SendHTML, 0)] \<and>
   ticks (step \<lparr>major = 18, legacy_byteLength = (\<lambda>v. 0)\<rparr>
       \<lparr>html = JBuffer [0x41], javascript = Undefined\<rparr> init (Request 0 ''/x'')) = []"
proof -
  have i: "0 \<notin> dom (responses init)" by (simp add: init_def)
  show ?thesis
    using deferred_only_for_content [OF i, of "\<lparr>major = 18, legacy_byteLength = (\<lambda>v. 0)\<rparr>"
        "\<lparr>html = JBuffer [0x41], javascript = Undefined\<rparr>" "''/''"]
      deferred_only_for_content [OF i, of "\<lparr>major = 18, legacy_byteLength = (\<lambda>v. 0)\<rparr>"
        "\<lparr>html = JBuffer [0x41], javascript = Undefined\<rparr>" "''/x''"]
    by (auto simp: init_def)
qed

text \<open>
  C8. On Node.js 18 the flag \<open>SUPPORTS_BUFFER\<close> is false, so \<open>byteLength\<close> measures the
  UTF-8 encoding of \<open>str.toString()\<close>. For HTML given as the buffer of the one byte
  \<open>0xFF\<close>, which is not UTF-8, the header says 3 while the body that is sent has 1 byte.
\<close>

theorem content_length_of_ill_formed_buffer:
  "headers (fst (sendHTML \<lparr>major = 18, legacy_byteLength = (\<lambda>v. 0)\<rparr>
       (tempHttpServer_opts [] \<lparr>html = JBuffer [0xFF], javascript = Undefined\<rparr>) new_response))
     ''Content-Length'' = Some (HNumber 3) \<and>
   body (fst (sendHTML \<lparr>major = 18, legacy_byteLength = (\<lambda>v. 0)\<rparr>
       (tempHttpServer_opts [] \<lparr>html = JBuffer [0xFF], javascript = Undefined\<rparr>) new_response)) =
     [0xFF]"
  by (simp add: sendHTML_def byteLength_def SUPPORTS_BUFFER_def tempHttpServer_opts_def
        utf8_decode_FF utf8_encode_FFFD setHeader_def response_end_def Let_def)

text \<open>
  C9. A request for \<open>/bundle.js\<close> received in the serving state gets the finish handler
  on its response and a deferred call of \<open>sendJavaScript\<close>, whether or not JavaScript
  content is configured; the request listener does not end the response and does not
  set status 404. The deferred call sets status 200 and the content type
  \<open>text/javascript\<close> before it looks at the payload.
\<close>

theorem bundle_request_always_armed:
  assumes "\<not> isClosing st" and "rid \<notin> dom (responses st)"
  shows "step nd opts st (Request rid ''/bundle.js'') =
           st\<lparr> responses := (responses st)(rid \<mapsto> new_response\<lparr> finishListener := True \<rparr>),
               ticks := ticks st @ [(SendJavaScript, rid)] \<rparr> \<and>
         statusCode (new_response\<lparr> finishListener := True \<rparr>) \<noteq> 404 \<and>
         \<not> ended (new_response\<lparr> finishListener := True \<rparr>) \<and>
         statusCode (fst (sendJavaScript nd opts r)) = 200 \<and>
         headers (fst (sendJavaScript nd opts r)) ''Content-Type'' = Some (HString ''text/javascript'')"
  using step_Request_bundle [OF assms, of nd opts]
  by (simp add: new_response_def sendJavaScript_def setHeader_def response_end_def Let_def
        split: sum.splits)

theorem bundle_request_always_armed_witness:
  "map_option finishListener (responses (step \<lparr>major = 18, legacy_byteLength = (\<lambda>v. 0)\<rparr>
       \<lparr>html = JBuffer [0x41], javascript = Undefined\<rparr> init (Request 0 ''/bundle.js'')) 0) =
     Some True \<and>
   ticks (step \<lparr>major = 18, legacy_byteLength = (\<lambda>v. 0)\<rparr>
       \<lparr>html = JBuffer [0x41], javascript = Undefined\<rparr> init (Request 0 ''/bundle.js'')) =
     [(SendJavaScript, 0)] \<and>
   isClosing (run \<lparr>major = 18, legacy_byteLength = (\<lambda>v. 0)\<rparr>
       \<lparr>html = JBuffer [0x41], javascript = JString []\<rparr> init
       [Request 0 ''/bundle.js'', Tick, Finish 0]) = True"
proof -
  have i: "\<not> isClosing init" "0 \<notin> dom (responses init)" by (simp_all add: init_def)
  have e: "utf8_encode [] = []" by (simp add: utf8_encode_def)
  have c: "isClosing (run \<lparr>major = 18, legacy_byteLength = (\<lambda>v. 0)\<rparr>
       \<lparr>html = JBuffer [0x41], javascript = JString []\<rparr> init
       [Request 0 ''/bundle.js'', Tick, Finish 0])"
    by (simp add: run_def init_def requestListener_def on_response_def next_tick_def
          sendJavaScript_def byteLength_def SUPPORTS_BUFFER_def e setHeader_def
          response_end_def new_response_def onFinish_def Let_def)
  show ?thesis
    using bundle_request_always_armed [OF i, of "\<lparr>major = 18, legacy_byteLength = (\<lambda>v. 0)\<rparr>"
        "\<lparr>html = JBuffer [0x41], javascript = Undefined\<rparr>" new_response] c
    by (simp add: init_def)
qed

end
